theory Spec2Isabelle
  imports Main "HOL-Library.Sublist"
begin

chapter \<open>Admission control and cache-aside resolution of the product catalogue API\<close>

text \<open>
  The development embeds two parts of the repository: the request queue middleware
  (\<^verbatim>\<open>requestQueueManager\<close> and its \<^verbatim>\<open>processQueue\<close>, in the middleware utilities) and the
  product routes (\<^verbatim>\<open>validatePaginationParams\<close>, \<^verbatim>\<open>validateSearchParams\<close> and the handlers
  of \<^verbatim>\<open>productRoutes\<close>). Logging and the \<^verbatim>\<open>X-Response-Time\<close> header are left out: no
  modelled decision reads them.
\<close>

section \<open>The request queue middleware\<close>

subsection \<open>Options and state\<close>

text \<open>
  \<^verbatim>\<open>requestQueueManager(fastify, options = {})\<close> destructures three options with defaults.
  An option that is \<^verbatim>\<open>undefined\<close> is \<open>None\<close>; \<^verbatim>\<open>process.env\<close> is a partial map from
  variable names to strings.
\<close>

record queue_options =
  opt_maxConcurrentRequests :: "int option"
  opt_queueTimeout :: "int option"
  opt_enableQueue :: "bool option"

record queue_config =
  maxConcurrentRequests :: int
  queueTimeout :: int
  enableQueue :: bool

definition no_options :: queue_options where
  "no_options = \<lparr>opt_maxConcurrentRequests = None, opt_queueTimeout = None, opt_enableQueue = None\<rparr>"

definition requestQueueManager_options :: "(string \<Rightarrow> string option) \<Rightarrow> queue_options \<Rightarrow> queue_config" where
  "requestQueueManager_options env options =
     \<lparr>maxConcurrentRequests =
        (case opt_maxConcurrentRequests options of None \<Rightarrow> 1000 | Some n \<Rightarrow> n),
      queueTimeout =
        (case opt_queueTimeout options of None \<Rightarrow> 30000 | Some t \<Rightarrow> t),
      enableQueue =
        (case opt_enableQueue options of
           None \<Rightarrow> env ''ENABLE_REQUEST_QUEUE'' = Some ''true''
         | Some b \<Rightarrow> b)\<rparr>"

text \<open>
  The closure variables \<^verbatim>\<open>activeRequests\<close>, \<^verbatim>\<open>requestQueue\<close> and \<^verbatim>\<open>isProcessingQueue\<close>
  form the state. What the middleware does to the outside is recorded in \<open>effects\<close>, in
  order: \<open>Done r\<close> is the call of the \<^verbatim>\<open>done\<close> callback that Fastify passed to the hook for
  request \<open>r\<close> (the request goes on to its handler), \<open>Reply503 r\<close> is
  \<^verbatim>\<open>reply.code(503).send(...)\<close>, and \<open>Header r name v\<close> is \<^verbatim>\<open>reply.header(name, v)\<close>.

  A queue entry stores the request and its enqueue time. Its \<^verbatim>\<open>done\<close> field is always the
  same wrapper closure, \<open>entry_done\<close> below, so the entry does not store it.
\<close>

datatype effect = Done nat | Reply503 nat | Header nat string int

record queue_entry =
  entry_request :: nat
  timestamp :: int

record admission =
  activeRequests :: int
  requestQueue :: "queue_entry list"
  isProcessingQueue :: bool
  effects :: "effect list"

definition initial_admission :: admission where
  "initial_admission =
     \<lparr>activeRequests = 0, requestQueue = [], isProcessingQueue = False, effects = []\<rparr>"

subsection \<open>processQueue\<close>

text \<open>
  \<^verbatim>\<open>processQueue\<close> has no \<^verbatim>\<open>await\<close>: it runs to completion when called. One run reads the
  clock as \<open>now\<close> (milliseconds), the same value at every \<^verbatim>\<open>Date.now()\<close> of the run.

  \<open>processQueue_loop\<close> is the \<^verbatim>\<open>while\<close> loop. The \<^verbatim>\<open>done\<close> it calls is the one destructured
  from the queue entry, that is the wrapper
  \<^verbatim>\<open>() => { activeRequests--; processQueue(); }\<close>, here \<open>entry_done\<close>; the wrapper calls
  \<open>processQueue\<close> again, which makes the three functions mutually recursive.
\<close>

function processQueue :: "queue_config \<Rightarrow> int \<Rightarrow> admission \<Rightarrow> admission"
  and processQueue_loop :: "queue_config \<Rightarrow> int \<Rightarrow> admission \<Rightarrow> admission"
  and entry_done :: "queue_config \<Rightarrow> int \<Rightarrow> admission \<Rightarrow> admission"
where
  "processQueue cfg now s =
     (if isProcessingQueue s \<or> requestQueue s = [] then s
      else (processQueue_loop cfg now (s\<lparr>isProcessingQueue := True\<rparr>))\<lparr>isProcessingQueue := False\<rparr>)"
| "processQueue_loop cfg now s =
     (case requestQueue s of
        [] \<Rightarrow> s
      | e # rest \<Rightarrow>
          if activeRequests s < maxConcurrentRequests cfg then
            (let s1 = s\<lparr>requestQueue := rest\<rparr> in
             if now - timestamp e > queueTimeout cfg
             then processQueue_loop cfg now
                    (s1\<lparr>effects := effects s1 @ [Reply503 (entry_request e)]\<rparr>)
             else processQueue_loop cfg now
                    (entry_done cfg now (s1\<lparr>activeRequests := activeRequests s1 + 1\<rparr>)))
          else s)"
| "entry_done cfg now s = processQueue cfg now (s\<lparr>activeRequests := activeRequests s - 1\<rparr>)"
  by pat_completeness auto

text \<open>
  The loop continues on the state that \<open>entry_done\<close> returns, so termination needs a fact
  about results first: no call lengthens the queue.
\<close>

lemma queue_not_longer_dom:
  "processQueue_processQueue_loop_entry_done_dom (Inl (c1, n1, s1)) \<Longrightarrow>
      length (requestQueue (processQueue c1 n1 s1)) \<le> length (requestQueue s1)"
  "processQueue_processQueue_loop_entry_done_dom (Inr (Inl (c2, n2, s2))) \<Longrightarrow>
      length (requestQueue (processQueue_loop c2 n2 s2)) \<le> length (requestQueue s2)"
  "processQueue_processQueue_loop_entry_done_dom (Inr (Inr (c3, n3, s3))) \<Longrightarrow>
      length (requestQueue (entry_done c3 n3 s3)) \<le> length (requestQueue s3)"
proof (induction c1 n1 s1 and c2 n2 s2 and c3 n3 s3
       rule: processQueue_processQueue_loop_entry_done.pinduct)
  case (1 cfg now s)
  then show ?case by (simp add: processQueue.psimps)
next
  case (2 cfg now s)
  show ?case
  proof (cases "requestQueue s")
    case Nil
    with 2(1) show ?thesis by (simp add: processQueue_loop.psimps)
  next
    case (Cons e rest)
    show ?thesis
    proof (cases "activeRequests s < maxConcurrentRequests cfg")
      case False
      with 2(1) Cons show ?thesis by (simp add: processQueue_loop.psimps)
    next
      case True
      show ?thesis
      proof (cases "queueTimeout cfg < now - timestamp e")
        case expired: True
        from 2(2)[OF Cons True refl expired] 2(1) Cons True expired
        show ?thesis by (simp add: processQueue_loop.psimps Let_def)
      next
        case fresh: False
        from 2(3)[OF Cons True refl fresh] 2(4)[OF Cons True refl fresh] 2(1) Cons True fresh
        show ?thesis by (simp add: processQueue_loop.psimps Let_def)
      qed
    qed
  qed
next
  case (3 cfg now s)
  then show ?case by (simp add: entry_done.psimps)
qed

termination processQueue
  apply (relation "measure (\<lambda>x. case x of
            Inl (c, n, s) \<Rightarrow> 3 * length (requestQueue s) + 1
          | Inr (Inl (c, n, s)) \<Rightarrow> 3 * length (requestQueue s)
          | Inr (Inr (c, n, s)) \<Rightarrow> 3 * length (requestQueue s) + 2)")
      apply simp_all
  subgoal for cfg now s e rest
    using queue_not_longer_dom(3)
            [of cfg now "s\<lparr>requestQueue := rest, activeRequests := activeRequests s + 1\<rparr>"]
    by simp
  done

declare processQueue.simps [simp del] processQueue_loop.simps [simp del] entry_done.simps [simp del]

subsection \<open>The onRequest hook\<close>

text \<open>
  The hook that \<^verbatim>\<open>requestQueueManager\<close> returns, for request \<open>r\<close> arriving at time \<open>now\<close>
  (the hook too runs to completion, and reads the clock as \<open>now\<close> both times). The guard
  \<^verbatim>\<open>!enableQueue || activeRequests < maxConcurrentRequests\<close> is written as the two tests
  that \<^verbatim>\<open>||\<close> makes, in order.
\<close>

definition requestQueueManager :: "queue_config \<Rightarrow> int \<Rightarrow> nat \<Rightarrow> admission \<Rightarrow> admission" where
  "requestQueueManager cfg now r s =
     (let admitted = s\<lparr>activeRequests := activeRequests s + 1, effects := effects s @ [Done r]\<rparr>;
          queueEntry = \<lparr>entry_request = r, timestamp = now\<rparr>;
          s1 = s\<lparr>requestQueue := requestQueue s @ [queueEntry]\<rparr>;
          s2 = s1\<lparr>effects := effects s1 @
                 [Header r ''X-Queue-Position'' (int (length (requestQueue s1))),
                  Header r ''X-Queue-Wait-Time'' (now - timestamp queueEntry)]\<rparr>
      in if \<not> enableQueue cfg then admitted
         else if activeRequests s < maxConcurrentRequests cfg then admitted
         else if \<not> isProcessingQueue s2 then processQueue cfg now s2
         else s2)"

text \<open>Requests arriving one after the other, each with its arrival time.\<close>

fun run_requests :: "queue_config \<Rightarrow> (int \<times> nat) list \<Rightarrow> admission \<Rightarrow> admission" where
  "run_requests cfg [] s = s"
| "run_requests cfg ((now, r) # rest) s = run_requests cfg rest (requestQueueManager cfg now r s)"

text \<open>The test that the loop makes on an entry, as a predicate.\<close>

definition timed_out :: "queue_config \<Rightarrow> int \<Rightarrow> queue_entry \<Rightarrow> bool" where
  "timed_out cfg now e = (now - timestamp e > queueTimeout cfg)"

subsection \<open>The end of a request\<close>

text \<open>
  The server registers \<^verbatim>\<open>responseLogger\<close> as its only \<^verbatim>\<open>onResponse\<close> hook and
  \<^verbatim>\<open>errorTracker\<close> as its only \<^verbatim>\<open>onError\<close> hook. The admission state is local to the
  closure of \<^verbatim>\<open>requestQueueManager\<close>: neither hook, and no handler, can reach it. So the end
  of a request, whether its handler returned or raised, leaves the admission state as it is.
\<close>

datatype handler_outcome = Returned | Raised

definition request_end :: "handler_outcome \<Rightarrow> admission \<Rightarrow> admission" where
  "request_end outcome s = (case outcome of Returned \<Rightarrow> s | Raised \<Rightarrow> s)"

text \<open>
  A whole request: the hook, then (only if the hook called \<^verbatim>\<open>done\<close>) the handler and the
  end of the request.
\<close>

definition serve_request ::
  "queue_config \<Rightarrow> int \<Rightarrow> nat \<Rightarrow> handler_outcome \<Rightarrow> admission \<Rightarrow> admission" where
  "serve_request cfg now r outcome s =
     (let s1 = requestQueueManager cfg now r s in
      if Done r \<in> set (drop (length (effects s)) (effects s1))
      then request_end outcome s1
      else s1)"

section \<open>The product routes\<close>

subsection \<open>JavaScript strings and numbers\<close>

text \<open>
  Strings are byte strings; the white space that \<^verbatim>\<open>parseInt\<close> skips and \<^verbatim>\<open>trim\<close> removes
  is the ASCII part of it (space, tab, line feed, vertical tab, form feed, carriage
  return). Numbers are unbounded integers, \<open>None\<close> is \<^verbatim>\<open>NaN\<close>: the handlers only compare
  them with small constants and print them into cache keys.
\<close>

definition is_space :: "char \<Rightarrow> bool" where
  "is_space c = (c \<in> set [CHR '' '', CHR 0x09, CHR 0x0A, CHR 0x0B, CHR 0x0C, CHR 0x0D])"

definition trim :: "string \<Rightarrow> string" where
  "trim s = rev (dropWhile is_space (rev (dropWhile is_space s)))"

definition digit_of :: "char \<Rightarrow> nat option" where
  "digit_of = map_of
     [(CHR ''0'', 0), (CHR ''1'', 1), (CHR ''2'', 2), (CHR ''3'', 3), (CHR ''4'', 4),
      (CHR ''5'', 5), (CHR ''6'', 6), (CHR ''7'', 7), (CHR ''8'', 8), (CHR ''9'', 9),
      (CHR ''a'', 10), (CHR ''b'', 11), (CHR ''c'', 12), (CHR ''d'', 13), (CHR ''e'', 14),
      (CHR ''f'', 15), (CHR ''A'', 10), (CHR ''B'', 11), (CHR ''C'', 12), (CHR ''D'', 13),
      (CHR ''E'', 14), (CHR ''F'', 15)]"

definition is_digit :: "nat \<Rightarrow> char \<Rightarrow> bool" where
  "is_digit radix c = (case digit_of c of None \<Rightarrow> False | Some d \<Rightarrow> d < radix)"

definition digits_value :: "nat \<Rightarrow> string \<Rightarrow> nat" where
  "digits_value radix ds =
     foldl (\<lambda>acc c. case digit_of c of None \<Rightarrow> acc | Some d \<Rightarrow> acc * radix + d) 0 ds"

text \<open>
  \<^verbatim>\<open>parseInt(s)\<close> with no radix: skip leading white space, read a sign, read a
  \<^verbatim>\<open>0x\<close>/\<^verbatim>\<open>0X\<close> prefix (radix 16), then the longest prefix of digits; no digit gives
  \<^verbatim>\<open>NaN\<close>. \<open>parseInt_arg\<close> is the call on a property that may be \<^verbatim>\<open>undefined\<close>.
\<close>

definition parseInt :: "string \<Rightarrow> int option" where
  "parseInt s =
     (let t = dropWhile is_space s;
          negative = (case t of [] \<Rightarrow> False | c # _ \<Rightarrow> c = CHR ''-'');
          u = (case t of [] \<Rightarrow> [] | c # r \<Rightarrow> if c = CHR ''-'' \<or> c = CHR ''+'' then r else t);
          hex = (take 2 u = ''0x'' \<or> take 2 u = ''0X'');
          radix = (if hex then 16 else 10);
          v = (if hex then drop 2 u else u);
          z = takeWhile (is_digit radix) v
      in if z = [] then None
         else Some (if negative then - int (digits_value radix z) else int (digits_value radix z)))"

definition parseInt_arg :: "string option \<Rightarrow> int option" where
  "parseInt_arg v = (case v of None \<Rightarrow> None | Some s \<Rightarrow> parseInt s)"

text \<open>\<^verbatim>\<open>x || d\<close> on a number \<open>x\<close>: \<^verbatim>\<open>NaN\<close> and \<open>0\<close> are falsy.\<close>

definition or_default :: "int option \<Rightarrow> int \<Rightarrow> int" where
  "or_default x d = (case x of None \<Rightarrow> d | Some n \<Rightarrow> if n = 0 then d else n)"

text \<open>A number printed by a template literal or \<^verbatim>\<open>toString()\<close>.\<close>

fun show_nat :: "nat \<Rightarrow> string" where
  "show_nat n =
     (if n < 10 then [''0123456789'' ! n]
      else show_nat (n div 10) @ [''0123456789'' ! (n mod 10)])"

declare show_nat.simps [simp del]

definition show_int :: "int \<Rightarrow> string" where
  "show_int i = (if i < 0 then CHR ''-'' # show_nat (nat (- i)) else show_nat (nat i))"

text \<open>\<^verbatim>\<open>s.includes(sub)\<close> (here \<open>str_includes\<close>), \<^verbatim>\<open>s.toLowerCase()\<close> (ASCII letters) and \<^verbatim>\<open>encodeURIComponent\<close>.\<close>

fun str_includes :: "string \<Rightarrow> string \<Rightarrow> bool" where
  "str_includes [] sub = (sub = [])"
| "str_includes (c # cs) sub = (prefix sub (c # cs) \<or> str_includes cs sub)"

definition toLowerCase :: "string \<Rightarrow> string" where
  "toLowerCase s =
     map (\<lambda>c. case map_of (zip ''ABCDEFGHIJKLMNOPQRSTUVWXYZ'' ''abcdefghijklmnopqrstuvwxyz'') c of
                 None \<Rightarrow> c | Some l \<Rightarrow> l) s"

definition encodeURIComponent :: "string \<Rightarrow> string" where
  "encodeURIComponent s =
     concat (map (\<lambda>c.
       if c \<in> set (''ABCDEFGHIJKLMNOPQRSTUVWXYZabcdefghijklmnopqrstuvwxyz0123456789-_.!~*()''
                    @ [CHR 0x27])
       then [c]
       else [CHR ''%'', ''0123456789ABCDEF'' ! (of_char c div 16),
             ''0123456789ABCDEF'' ! (of_char c mod 16)]) s)"

subsection \<open>Request validation\<close>

text \<open>
  \<^verbatim>\<open>request.query\<close> maps parameter names to strings. The routes declare \<^verbatim>\<open>querySchema\<close>:
  \<^verbatim>\<open>page\<close>, \<^verbatim>\<open>limit\<close> and \<^verbatim>\<open>q\<close>, when present, match \<^verbatim>\<open>^[1-9]\d*$\<close>; other parameters
  are not constrained. \<^verbatim>\<open>paramsSchema\<close> asks the same of the required \<^verbatim>\<open>index\<close>.
\<close>

type_synonym query_params = "string \<Rightarrow> string option"

definition matches_positive_integer :: "string \<Rightarrow> bool" where
  "matches_positive_integer s =
     (case s of
        [] \<Rightarrow> False
      | c # cs \<Rightarrow> c \<in> set ''123456789'' \<and> list_all (\<lambda>d. d \<in> set ''0123456789'') cs)"

definition pattern_ok :: "string option \<Rightarrow> bool" where
  "pattern_ok v = (case v of None \<Rightarrow> True | Some s \<Rightarrow> matches_positive_integer s)"

definition querySchema :: "query_params \<Rightarrow> bool" where
  "querySchema query =
     (pattern_ok (query ''page'') \<and> pattern_ok (query ''limit'') \<and> pattern_ok (query ''q''))"

definition paramsSchema :: "string \<Rightarrow> bool" where
  "paramsSchema index = matches_positive_integer index"

text \<open>A thrown \<^verbatim>\<open>Error\<close> is its message, on the left of the sum.\<close>

definition validatePaginationParams :: "query_params \<Rightarrow> string + (int \<times> int)" where
  "validatePaginationParams query =
     (let page = or_default (parseInt_arg (query ''page'')) 1;
          limit = or_default (parseInt_arg (query ''limit'')) 10
      in if page < 1 then Inl ''Page number must be greater than 0''
         else if limit < 1 then Inl ''Limit must be greater than 0''
         else if limit > 100 then Inl ''Limit cannot exceed 100 items per page''
         else Inr (page, limit))"

text \<open>
  \<^verbatim>\<open>validateSearchParams\<close> reads the search term from \<^verbatim>\<open>query.q\<close>;
  \<^verbatim>\<open>query.q ? query.q.trim() : null\<close> gives \<open>None\<close> for a missing or empty \<^verbatim>\<open>q\<close>.
\<close>

definition validateSearchParams :: "query_params \<Rightarrow> string + (int \<times> int \<times> string option)" where
  "validateSearchParams query =
     (case validatePaginationParams query of
        Inl msg \<Rightarrow> Inl msg
      | Inr (page, limit) \<Rightarrow>
          (let search = (case query ''q'' of
                           None \<Rightarrow> None
                         | Some q \<Rightarrow> if q = [] then None else Some (trim q))
           in case search of
                None \<Rightarrow> Inr (page, limit, None)
              | Some term \<Rightarrow>
                  (case parseInt term of
                     None \<Rightarrow> Inl ''Search term must be a positive integer (index number)''
                   | Some indexNumber \<Rightarrow>
                       if indexNumber < 1
                       then Inl ''Search term must be a positive integer (index number)''
                       else Inr (page, limit, search))))"

subsection \<open>Rows, JSON values and the two collaborators\<close>

text \<open>
  A row of \<^verbatim>\<open>products\<close> has the primary key \<^verbatim>\<open>id\<close>, the \<^verbatim>\<open>index\<close> (taken to be present in
  every row), the name and the \<^verbatim>\<open>category\<close> (a nullable \<^verbatim>\<open>TEXT\<close> column); the other columns
  are carried along as name/value pairs. Response bodies are JSON values.
\<close>

datatype json = JNull | JNum int | JStr string | JArr "json list" | JObj "(string \<times> json) list"

record product =
  p_id :: int
  p_index :: int
  p_name :: string
  p_category :: "string option"
  p_columns :: "(string \<times> json) list"

definition product_json :: "product \<Rightarrow> json" where
  "product_json p =
     JObj ([(''id'', JNum (p_id p)), (''index'', JNum (p_index p)), (''name'', JStr (p_name p)),
            (''category'', case p_category p of None \<Rightarrow> JNull | Some c \<Rightarrow> JStr c)]
           @ p_columns p)"

text \<open>
  \<^verbatim>\<open>JSON.stringify\<close> and \<^verbatim>\<open>JSON.parse\<close> belong to the language, not to the repository: the
  handlers take them as a parameter. \<open>JSON_parse\<close> gives \<open>None\<close> where \<^verbatim>\<open>JSON.parse\<close>
  throws.
\<close>

record codec =
  JSON_stringify :: "json \<Rightarrow> string"
  JSON_parse :: "string \<Rightarrow> json option"

text \<open>
  The queries that the handlers pass to \<^verbatim>\<open>executeQuery\<close>, one constructor for each SQL text,
  with its parameters. The query executor is a parameter of the handlers: it answers a
  query with rows, or a count, or fails with the driver's message.
\<close>

datatype query =
    Products_page int int
  | Products_count
  | Product_by_index int
  | Search_by_index int int int
  | Search_count int
  | Category_products string
  | Random_products string "int list" int

record executor =
  run_rows :: "query \<Rightarrow> string + product list"
  run_count :: "query \<Rightarrow> string + int"

text \<open>
  \<^verbatim>\<open>executeQuery\<close> rejects with \<^verbatim>\<open>Database operation failed: \<close> followed by the driver's
  message.
\<close>

definition executeQuery_rows :: "executor \<Rightarrow> query \<Rightarrow> string + product list" where
  "executeQuery_rows exec q =
     (case run_rows exec q of
        Inl msg \<Rightarrow> Inl (''Database operation failed: '' @ msg)
      | Inr rows \<Rightarrow> Inr rows)"

definition executeQuery_count :: "executor \<Rightarrow> query \<Rightarrow> string + int" where
  "executeQuery_count exec q =
     (case run_count exec q of
        Inl msg \<Rightarrow> Inl (''Database operation failed: '' @ msg)
      | Inr n \<Rightarrow> Inr n)"

text \<open>
  The cache is the Redis client: a value stored with \<^verbatim>\<open>'EX', ttl\<close> at time \<open>now\<close>
  (milliseconds) is readable while the time is before \<open>now + 1000 * ttl\<close>. A client that
  is not \<open>available\<close> throws on every command.
\<close>

record cache =
  entries :: "string \<Rightarrow> (string \<times> int) option"
  available :: bool

definition redis_get :: "cache \<Rightarrow> int \<Rightarrow> string \<Rightarrow> string option option" where
  "redis_get c now key =
     (if available c
      then Some (case entries c key of
                   None \<Rightarrow> None
                 | Some (v, expiry) \<Rightarrow> if now < expiry then Some v else None)
      else None)"

definition redis_set :: "cache \<Rightarrow> int \<Rightarrow> string \<Rightarrow> string \<Rightarrow> int \<Rightarrow> cache option" where
  "redis_set c now key v ttl =
     (if available c then Some (c\<lparr>entries := (entries c)(key \<mapsto> (v, now + 1000 * ttl))\<rparr>)
      else None)"

text \<open>
  Every caching handler reads with the same block:
  \<^verbatim>\<open>try { const cachedData = await fastify.redis.get(cacheKey); if (cachedData) { const result = JSON.parse(cachedData); ...; return result; } } catch (cacheError) { ... }\<close>.
  A throwing client, a missing or empty value and a value that does not parse all fall
  through to the database. It writes with
  \<^verbatim>\<open>try { await fastify.redis.set(cacheKey, JSON.stringify(response), 'EX', ttl); } catch (cacheError) { ... }\<close>.
\<close>

definition cached_result :: "codec \<Rightarrow> cache \<Rightarrow> int \<Rightarrow> string \<Rightarrow> json option" where
  "cached_result cd c now cacheKey =
     (case redis_get c now cacheKey of
        None \<Rightarrow> None
      | Some None \<Rightarrow> None
      | Some (Some cachedData) \<Rightarrow> if cachedData = [] then None else JSON_parse cd cachedData)"

definition cache_result :: "codec \<Rightarrow> cache \<Rightarrow> int \<Rightarrow> string \<Rightarrow> json \<Rightarrow> int \<Rightarrow> cache" where
  "cache_result cd c now cacheKey response ttl =
     (case redis_set c now cacheKey (JSON_stringify cd response) ttl of
        None \<Rightarrow> c
      | Some c' \<Rightarrow> c')"

text \<open>
  What a handler did, besides its reply: the cache afterwards and, in order, every call
  it made to the cache client and to the query executor.
\<close>

datatype access = Cache_get string | Cache_set string int | Query query

record reply =
  status :: nat
  headers :: "(string \<times> string) list"
  body :: json

record handled =
  reply_of :: reply
  cache_of :: cache
  accesses :: "access list"

text \<open>Error bodies carry \<^verbatim>\<open>error\<close> and \<^verbatim>\<open>message\<close>; the optional \<^verbatim>\<open>details\<close> is left out.\<close>

definition error_body :: "string \<Rightarrow> string \<Rightarrow> json" where
  "error_body err msg = JObj [(''error'', JStr err), (''message'', JStr msg)]"

text \<open>
  A request that fails the route's schema never reaches the handler: Fastify answers it
  with status 400 (the text of its message is not modelled).
\<close>

definition schema_rejected :: "cache \<Rightarrow> handled" where
  "schema_rejected c =
     \<lparr>reply_of = \<lparr>status = 400, headers = [],
                   body = error_body ''Bad Request'' ''request does not match the schema''\<rparr>,
      cache_of = c, accesses = []\<rparr>"

subsection \<open>GET /api/products\<close>

text \<open>The cache keys, as the template literals of the handlers build them.\<close>

definition products_cacheKey :: "int \<Rightarrow> int \<Rightarrow> string" where
  "products_cacheKey page limit = ''products:page:'' @ show_int page @ '':limit:'' @ show_int limit"

definition totalCountKey :: string where
  "totalCountKey = ''products:total:count''"

definition search_cacheKey :: "int \<Rightarrow> int \<Rightarrow> int \<Rightarrow> string" where
  "search_cacheKey indexNumber page limit =
     ''products:search:index:'' @ show_int indexNumber
       @ '':page:'' @ show_int page @ '':limit:'' @ show_int limit"

definition category_cacheKey :: "string \<Rightarrow> string" where
  "category_cacheKey cleanCategoryName =
     ''products:category:'' @ encodeURIComponent (toLowerCase cleanCategoryName) @ '':limit:5''"

text \<open>The \<^verbatim>\<open>catch\<close> block of the listing handler: the status depends on the message.\<close>

definition get_products_catch :: "string \<Rightarrow> cache \<Rightarrow> access list \<Rightarrow> handled" where
  "get_products_catch message c acc =
     \<lparr>reply_of =
        (if str_includes message ''Page number must be''
            \<or> str_includes message ''Limit must be''
            \<or> str_includes message ''Limit cannot exceed''
         then \<lparr>status = 400, headers = [], body = error_body ''Bad Request'' message\<rparr>
         else \<lparr>status = 500, headers = [],
                body = error_body ''Internal Server Error'' ''Failed to fetch products''\<rparr>),
      cache_of = c, accesses = acc\<rparr>"

definition products_envelope :: "product list \<Rightarrow> int \<Rightarrow> int \<Rightarrow> int \<Rightarrow> json" where
  "products_envelope rows page limit totalCount =
     JObj [(''products'', JArr (map product_json rows)), (''page'', JNum page),
           (''limit'', JNum limit), (''total'', JNum totalCount)]"

text \<open>
  The end of every miss path (listing, search and category alike): cache the response for
  60 seconds, tag it \<^verbatim>\<open>X-Cache: MISS\<close> and return it.
\<close>

definition respond_miss ::
  "codec \<Rightarrow> cache \<Rightarrow> int \<Rightarrow> string \<Rightarrow> json \<Rightarrow> access list \<Rightarrow> handled" where
  "respond_miss cd c now cacheKey response acc =
     \<lparr>reply_of = \<lparr>status = 200, headers = [(''X-Cache'', ''MISS'')], body = response\<rparr>,
      cache_of = cache_result cd c now cacheKey response 60,
      accesses = acc @ [Cache_set cacheKey 60]\<rparr>"

text \<open>
  The handler. On a miss it first looks for the cached total (\<open>cachedCount\<close> is the
  variable \<^verbatim>\<open>total\<close> before the queries); \<^verbatim>\<open>!total\<close> holds for \<^verbatim>\<open>undefined\<close>, \<^verbatim>\<open>NaN\<close> and
  \<open>0\<close>. Both queries are started before either is awaited.
\<close>

definition get_products_handler ::
  "codec \<Rightarrow> executor \<Rightarrow> int \<Rightarrow> query_params \<Rightarrow> cache \<Rightarrow> handled" where
  "get_products_handler cd exec now query c =
     (case validatePaginationParams query of
        Inl message \<Rightarrow> get_products_catch message c []
      | Inr (page, limit) \<Rightarrow>
          (let offset = (page - 1) * limit;
               cacheKey = products_cacheKey page limit
           in case cached_result cd c now cacheKey of
                Some result \<Rightarrow>
                  \<lparr>reply_of = \<lparr>status = 200, headers = [(''X-Cache'', ''HIT'')], body = result\<rparr>,
                   cache_of = c, accesses = [Cache_get cacheKey]\<rparr>
              | None \<Rightarrow>
                  (let cachedCount = (case redis_get c now totalCountKey of
                                  Some (Some cachedTotal) \<Rightarrow>
                                    if cachedTotal = [] then None else parseInt cachedTotal
                                | _ \<Rightarrow> None);
                       counting = (or_default cachedCount 0 = 0);
                       started = [Cache_get cacheKey, Cache_get totalCountKey,
                                  Query (Products_page limit offset)]
                                 @ (if counting then [Query Products_count] else [])
                   in case executeQuery_rows exec (Products_page limit offset) of
                        Inl message \<Rightarrow> get_products_catch message c started
                      | Inr rows \<Rightarrow>
                          if counting then
                            (case executeQuery_count exec Products_count of
                               Inl message \<Rightarrow> get_products_catch message c started
                             | Inr n \<Rightarrow>
                                 respond_miss cd
                                   (case redis_set c now totalCountKey (show_int n) 300 of
                                      None \<Rightarrow> c | Some c' \<Rightarrow> c')
                                   now cacheKey (products_envelope rows page limit n)
                                   (started @ [Cache_set totalCountKey 300]))
                          else
                            respond_miss cd c now cacheKey
                              (products_envelope rows page limit (or_default cachedCount 0)) started)))"

definition get_products ::
  "codec \<Rightarrow> executor \<Rightarrow> int \<Rightarrow> query_params \<Rightarrow> cache \<Rightarrow> handled" where
  "get_products cd exec now query c =
     (if querySchema query then get_products_handler cd exec now query c else schema_rejected c)"

subsection \<open>GET /api/products/search\<close>

definition get_search_catch :: "string \<Rightarrow> cache \<Rightarrow> access list \<Rightarrow> handled" where
  "get_search_catch message c acc =
     \<lparr>reply_of =
        (if str_includes message ''Page number must be''
            \<or> str_includes message ''Limit must be''
            \<or> str_includes message ''Limit cannot exceed''
            \<or> str_includes message ''Search term cannot be''
         then \<lparr>status = 400, headers = [], body = error_body ''Bad Request'' message\<rparr>
         else \<lparr>status = 500, headers = [],
                body = error_body ''Internal Server Error'' ''Failed to search products by index''\<rparr>),
      cache_of = c, accesses = acc\<rparr>"

definition search_envelope :: "product list \<Rightarrow> int \<Rightarrow> int \<Rightarrow> int \<Rightarrow> string \<Rightarrow> json" where
  "search_envelope rows page limit totalCount search =
     JObj [(''products'', JArr (map product_json rows)), (''page'', JNum page),
           (''limit'', JNum limit), (''total'', JNum totalCount), (''searchTerm'', JStr search)]"

definition search_bad_request :: "string \<Rightarrow> cache \<Rightarrow> handled" where
  "search_bad_request message c =
     \<lparr>reply_of = \<lparr>status = 400, headers = [], body = error_body ''Bad Request'' message\<rparr>,
      cache_of = c, accesses = []\<rparr>"

text \<open>
  The handler takes the term that \<^verbatim>\<open>validateSearchParams\<close> read from \<^verbatim>\<open>query.q\<close>; a
  parameter named \<^verbatim>\<open>search\<close> is read nowhere.
\<close>

definition get_search_handler ::
  "codec \<Rightarrow> executor \<Rightarrow> int \<Rightarrow> query_params \<Rightarrow> cache \<Rightarrow> handled" where
  "get_search_handler cd exec now query c =
     (case validateSearchParams query of
        Inl message \<Rightarrow> get_search_catch message c []
      | Inr (page, limit, search) \<Rightarrow>
          (let offset = (page - 1) * limit in
           case search of
             None \<Rightarrow> search_bad_request ''Search term is required'' c
           | Some term \<Rightarrow>
               if term = [] then search_bad_request ''Search term is required'' c
               else
                 (case parseInt term of
                    None \<Rightarrow>
                      search_bad_request ''Search term must be a positive integer (index number)'' c
                  | Some indexNumber \<Rightarrow>
                      if indexNumber < 1
                      then search_bad_request
                             ''Search term must be a positive integer (index number)'' c
                      else
                        (let cacheKey = search_cacheKey indexNumber page limit
                         in case cached_result cd c now cacheKey of
                              Some result \<Rightarrow>
                                \<lparr>reply_of = \<lparr>status = 200, headers = [(''X-Cache'', ''HIT'')],
                                              body = result\<rparr>,
                                 cache_of = c, accesses = [Cache_get cacheKey]\<rparr>
                            | None \<Rightarrow>
                                (case executeQuery_rows exec (Search_by_index indexNumber limit offset) of
                                   Inl message \<Rightarrow>
                                     get_search_catch message c
                                       [Cache_get cacheKey,
                                        Query (Search_by_index indexNumber limit offset)]
                                 | Inr rows \<Rightarrow>
                                     (case executeQuery_count exec (Search_count indexNumber) of
                                        Inl message \<Rightarrow>
                                          get_search_catch message c
                                            [Cache_get cacheKey,
                                             Query (Search_by_index indexNumber limit offset),
                                             Query (Search_count indexNumber)]
                                      | Inr n \<Rightarrow>
                                          respond_miss cd c now cacheKey
                                            (search_envelope rows page limit n term)
                                            [Cache_get cacheKey,
                                             Query (Search_by_index indexNumber limit offset),
                                             Query (Search_count indexNumber)]))))))"

definition get_search ::
  "codec \<Rightarrow> executor \<Rightarrow> int \<Rightarrow> query_params \<Rightarrow> cache \<Rightarrow> handled" where
  "get_search cd exec now query c =
     (if querySchema query then get_search_handler cd exec now query c else schema_rejected c)"

subsection \<open>GET /api/products/:index\<close>

text \<open>
  The handler calls neither \<^verbatim>\<open>fastify.redis.get\<close> nor \<^verbatim>\<open>fastify.redis.set\<close> and sets no
  \<^verbatim>\<open>X-Cache\<close> header. Its \<^verbatim>\<open>catch\<close> block answers 500 whatever the message.
\<close>

definition get_index_handler :: "executor \<Rightarrow> string \<Rightarrow> cache \<Rightarrow> handled" where
  "get_index_handler exec index c =
     (case parseInt index of
        None \<Rightarrow>
          \<lparr>reply_of = \<lparr>status = 400, headers = [],
                        body = error_body ''Bad Request'' ''Product Index must be a positive integer''\<rparr>,
           cache_of = c, accesses = []\<rparr>
      | Some productIndex \<Rightarrow>
          if productIndex < 1
          then \<lparr>reply_of = \<lparr>status = 400, headers = [],
                             body = error_body ''Bad Request''
                                      ''Product Index must be a positive integer''\<rparr>,
                cache_of = c, accesses = []\<rparr>
          else
            (case executeQuery_rows exec (Product_by_index productIndex) of
               Inl message \<Rightarrow>
                 \<lparr>reply_of = \<lparr>status = 500, headers = [],
                               body = error_body ''Internal Server Error'' ''Failed to fetch product''\<rparr>,
                  cache_of = c, accesses = [Query (Product_by_index productIndex)]\<rparr>
             | Inr rows \<Rightarrow>
                 (case rows of
                    [] \<Rightarrow>
                      \<lparr>reply_of = \<lparr>status = 404, headers = [],
                                    body = error_body ''Not Found''
                                      (''Product with Index '' @ show_int productIndex @ '' not found'')\<rparr>,
                       cache_of = c, accesses = [Query (Product_by_index productIndex)]\<rparr>
                  | product # _ \<Rightarrow>
                      \<lparr>reply_of = \<lparr>status = 200, headers = [], body = product_json product\<rparr>,
                       cache_of = c, accesses = [Query (Product_by_index productIndex)]\<rparr>)))"

definition get_index :: "executor \<Rightarrow> string \<Rightarrow> cache \<Rightarrow> handled" where
  "get_index exec index c =
     (if paramsSchema index then get_index_handler exec index c else schema_rejected c)"

subsection \<open>GET /api/products/category/:categoryName\<close>

definition category_envelope :: "string \<Rightarrow> product list \<Rightarrow> int \<Rightarrow> int \<Rightarrow> json" where
  "category_envelope category prods categoryMatches randomProducts =
     JObj [(''products'', JArr (map product_json prods)), (''category'', JStr category),
           (''count'', JNum (int (length prods))), (''categoryMatches'', JNum categoryMatches),
           (''randomProducts'', JNum randomProducts)]"

definition category_failed :: "cache \<Rightarrow> access list \<Rightarrow> handled" where
  "category_failed c acc =
     \<lparr>reply_of = \<lparr>status = 500, headers = [],
                   body = error_body ''Internal Server Error''
                            ''Failed to fetch products by category''\<rparr>,
      cache_of = c, accesses = acc\<rparr>"

text \<open>
  The part of the handler after the queries: \<open>rows\<close> are the category's rows, \<open>prods\<close> the
  rows with the random ones appended. An empty list is answered 404 and not cached.
\<close>

definition get_category_respond ::
  "codec \<Rightarrow> cache \<Rightarrow> int \<Rightarrow> string \<Rightarrow> string \<Rightarrow> product list \<Rightarrow> product list \<Rightarrow> bool
     \<Rightarrow> access list \<Rightarrow> handled" where
  "get_category_respond cd c now cacheKey cleanCategoryName rows prods needsRandomProducts acc =
     (if prods = []
      then \<lparr>reply_of = \<lparr>status = 404, headers = [],
                         body = error_body ''Not Found''
                                  (''No products found in category ''
                                   @ [CHR 0x27] @ cleanCategoryName @ [CHR 0x27]
                                   @ '' and no other products available'')\<rparr>,
            cache_of = c, accesses = acc\<rparr>
      else respond_miss cd c now cacheKey
             (category_envelope cleanCategoryName prods (int (length rows))
                (if needsRandomProducts then int (length prods) - int (length rows) else 0))
             acc)"

definition get_category_handler ::
  "codec \<Rightarrow> executor \<Rightarrow> int \<Rightarrow> string \<Rightarrow> cache \<Rightarrow> handled" where
  "get_category_handler cd exec now categoryName c =
     (let cleanCategoryName = trim categoryName in
      if cleanCategoryName = []
      then \<lparr>reply_of = \<lparr>status = 400, headers = [],
                         body = error_body ''Bad Request'' ''Category name cannot be empty''\<rparr>,
            cache_of = c, accesses = []\<rparr>
      else
        (let cacheKey = category_cacheKey cleanCategoryName
         in case cached_result cd c now cacheKey of
              Some result \<Rightarrow>
                \<lparr>reply_of = \<lparr>status = 200, headers = [(''X-Cache'', ''HIT'')], body = result\<rparr>,
                 cache_of = c, accesses = [Cache_get cacheKey]\<rparr>
            | None \<Rightarrow>
                (case executeQuery_rows exec (Category_products cleanCategoryName) of
                   Inl message \<Rightarrow>
                     category_failed c
                       [Cache_get cacheKey, Query (Category_products cleanCategoryName)]
                 | Inr rows \<Rightarrow>
                     if length rows < 5 then
                       (let productsNeeded = 5 - int (length rows);
                            excludeIds = map p_id rows;
                            acc = [Cache_get cacheKey, Query (Category_products cleanCategoryName),
                                   Query (Random_products cleanCategoryName excludeIds productsNeeded)]
                        in case executeQuery_rows exec
                                  (Random_products cleanCategoryName excludeIds productsNeeded) of
                             Inl message \<Rightarrow> category_failed c acc
                           | Inr randomRows \<Rightarrow>
                               get_category_respond cd c now cacheKey cleanCategoryName rows
                                 (rows @ randomRows) True acc)
                     else
                       get_category_respond cd c now cacheKey cleanCategoryName rows rows False
                         [Cache_get cacheKey, Query (Category_products cleanCategoryName)])))"

text \<open>The route's schema asks for a category name of 1 to 50 characters.\<close>

definition get_category ::
  "codec \<Rightarrow> executor \<Rightarrow> int \<Rightarrow> string \<Rightarrow> cache \<Rightarrow> handled" where
  "get_category cd exec now categoryName c =
     (if 1 \<le> length categoryName \<and> length categoryName \<le> 50
      then get_category_handler cd exec now categoryName c
      else schema_rejected c)"

subsection \<open>The queries over a table\<close>

text \<open>
  What the SQL texts compute over a table of rows, for an executor that never fails.
  \<^verbatim>\<open>LOWER\<close> lowers ASCII letters. A comparison with a \<^verbatim>\<open>NULL\<close> category is not true, whether
  \<^verbatim>\<open>=\<close> or \<^verbatim>\<open>!=\<close>. \<^verbatim>\<open>ORDER BY RANDOM()\<close> sorts by a rank \<open>rnd\<close> drawn for each row, a
  parameter here. Rows are returned whole, whatever columns the query selects.
\<close>

definition in_category :: "string \<Rightarrow> product \<Rightarrow> bool" where
  "in_category name p =
     (case p_category p of None \<Rightarrow> False | Some k \<Rightarrow> toLowerCase k = toLowerCase name)"

definition in_other_category :: "string \<Rightarrow> product \<Rightarrow> bool" where
  "in_other_category name p =
     (case p_category p of None \<Rightarrow> False | Some k \<Rightarrow> toLowerCase k \<noteq> toLowerCase name)"

definition select_rows :: "(product \<Rightarrow> nat) \<Rightarrow> product list \<Rightarrow> query \<Rightarrow> product list" where
  "select_rows rnd tbl q =
     (case q of
        Products_page limit offset \<Rightarrow> take (nat limit) (drop (nat offset) (sort_key p_index tbl))
      | Products_count \<Rightarrow> []
      | Product_by_index i \<Rightarrow> filter (\<lambda>p. p_index p = i) tbl
      | Search_by_index i limit offset \<Rightarrow>
          take (nat limit) (drop (nat offset) (sort_key p_index (filter (\<lambda>p. p_index p = i) tbl)))
      | Search_count i \<Rightarrow> []
      | Category_products name \<Rightarrow> take 5 (sort_key p_index (filter (in_category name) tbl))
      | Random_products name excludeIds n \<Rightarrow>
          take (nat n)
            (sort_key rnd
               (filter (\<lambda>p. in_other_category name p \<and> p_id p \<notin> set excludeIds) tbl)))"

definition select_count :: "product list \<Rightarrow> query \<Rightarrow> int" where
  "select_count tbl q =
     (case q of
        Products_count \<Rightarrow> int (length tbl)
      | Search_count i \<Rightarrow> int (length (filter (\<lambda>p. p_index p = i) tbl))
      | _ \<Rightarrow> 0)"

definition postgres :: "(product \<Rightarrow> nat) \<Rightarrow> product list \<Rightarrow> executor" where
  "postgres rnd tbl =
     \<lparr>run_rows = (\<lambda>q. Inr (select_rows rnd tbl q)),
      run_count = (\<lambda>q. Inr (select_count tbl q))\<rparr>"

section \<open>Example inputs\<close>

text \<open>
  A server with room for one request and queueing enabled; a state of its queue with a
  free slot; an environment that spells the flag in upper case.
\<close>

definition capacity_one :: queue_config where
  "capacity_one =
     requestQueueManager_options (Map.empty(''ENABLE_REQUEST_QUEUE'' \<mapsto> ''true''))
       (no_options\<lparr>opt_maxConcurrentRequests := Some 1\<rparr>)"

definition two_waiting :: admission where
  "two_waiting =
     \<lparr>activeRequests = 0,
      requestQueue = [\<lparr>entry_request = 2, timestamp = 1\<rparr>, \<lparr>entry_request = 3, timestamp = 2\<rparr>],
      isProcessingQueue = False, effects = []\<rparr>"

definition upper_case_env :: "string \<Rightarrow> string option" where
  "upper_case_env = Map.empty(''ENABLE_REQUEST_QUEUE'' \<mapsto> ''TRUE'')"

text \<open>
  Catalogues: \<open>item i cat\<close> has id \<open>i\<close>, index \<open>100 + i\<close> and category \<open>cat\<close>. The random
  rank \<open>by_id\<close> orders rows by their id. The cache starts empty and available.
\<close>

definition item :: "int \<Rightarrow> string option \<Rightarrow> product" where
  "item i cat =
     \<lparr>p_id = i, p_index = 100 + i, p_name = ''item'', p_category = cat, p_columns = []\<rparr>"

definition small_catalogue :: "product list" where
  "small_catalogue = [item 1 (Some ''Books''), item 2 (Some ''books''), item 3 (Some ''Toys'')]"

definition shelf :: "product list" where
  "shelf = [item 1 (Some ''Books''), item 2 (Some ''books''), item 3 (Some ''Toys''),
            item 4 (Some ''toys''), item 5 (Some ''TOYS''), item 6 (Some ''Toys''),
            item 7 (Some ''Toys''), item 8 None]"

definition uncategorised :: "product list" where
  "uncategorised = [item 9 None]"

definition by_id :: "product \<Rightarrow> nat" where
  "by_id p = nat (p_id p)"

definition empty_cache :: cache where
  "empty_cache = \<lparr>entries = Map.empty, available = True\<rparr>"

text \<open>A codec that knows one document: it prints every value as \<^verbatim>\<open>{}\<close> and reads back \<open>doc\<close>.\<close>

definition single_document :: "json \<Rightarrow> codec" where
  "single_document doc = \<lparr>JSON_stringify = (\<lambda>j. ''{}''), JSON_parse = (\<lambda>s. Some doc)\<rparr>"

text \<open>Requests.\<close>

definition over_limit :: query_params where
  "over_limit = Map.empty(''limit'' \<mapsto> ''101'')"

definition page_zero :: query_params where
  "page_zero = Map.empty(''page'' \<mapsto> ''0'', ''limit'' \<mapsto> ''10'')"

definition first_page :: query_params where
  "first_page = Map.empty(''page'' \<mapsto> ''1'', ''limit'' \<mapsto> ''10'')"

definition first_page_envelope :: json where
  "first_page_envelope = products_envelope small_catalogue 1 10 3"

definition search_given :: query_params where
  "search_given = Map.empty(''search'' \<mapsto> ''103'')"

definition q_given :: query_params where
  "q_given = Map.empty(''q'' \<mapsto> ''103'')"

section \<open>Properties of the request queue middleware\<close>

subsection \<open>What a run of processQueue does\<close>

lemma entry_done_while_processing:
  "isProcessingQueue s \<Longrightarrow>
   entry_done cfg now (s\<lparr>activeRequests := activeRequests s + 1\<rparr>) = s"
  by (simp add: entry_done.simps processQueue.simps)

lemma processQueue_loop_result:
  "isProcessingQueue s \<Longrightarrow>
   processQueue_loop cfg now s =
     (if activeRequests s < maxConcurrentRequests cfg
      then s\<lparr>requestQueue := [],
             effects := effects s @
               map (\<lambda>e. Reply503 (entry_request e)) (filter (timed_out cfg now) (requestQueue s))\<rparr>
      else s)"
proof (induction "requestQueue s" arbitrary: s)
  case Nil
  then show ?case by (simp add: processQueue_loop.simps)
next
  case (Cons e rest)
  have q: "requestQueue s = e # rest" using Cons.hyps(2) by simp
  show ?case
  proof (cases "activeRequests s < maxConcurrentRequests cfg")
    case False
    then show ?thesis using q by (simp add: processQueue_loop.simps)
  next
    case True
    show ?thesis
    proof (cases "timed_out cfg now e")
      case expired: True
      let ?s' = "s\<lparr>requestQueue := rest, effects := effects s @ [Reply503 (entry_request e)]\<rparr>"
      have "processQueue_loop cfg now s = processQueue_loop cfg now ?s'"
        using q True expired
        by (subst processQueue_loop.simps) (simp add: timed_out_def Let_def)
      also have "\<dots> = ?s'\<lparr>requestQueue := [],
             effects := effects ?s' @
               map (\<lambda>e. Reply503 (entry_request e)) (filter (timed_out cfg now) (requestQueue ?s'))\<rparr>"
        using Cons.hyps(1)[of ?s'] Cons.prems True by simp
      finally show ?thesis using q True expired by simp
    next
      case fresh: False
      let ?s' = "s\<lparr>requestQueue := rest\<rparr>"
      have "processQueue_loop cfg now s =
            processQueue_loop cfg now
              (entry_done cfg now (?s'\<lparr>activeRequests := activeRequests ?s' + 1\<rparr>))"
        using q True fresh
        by (subst processQueue_loop.simps) (simp add: timed_out_def Let_def)
      also have "\<dots> = processQueue_loop cfg now ?s'"
        using entry_done_while_processing[of ?s' cfg now] Cons.prems by simp
      also have "\<dots> = ?s'\<lparr>requestQueue := [],
             effects := effects ?s' @
               map (\<lambda>e. Reply503 (entry_request e)) (filter (timed_out cfg now) (requestQueue ?s'))\<rparr>"
        using Cons.hyps(1)[of ?s'] Cons.prems True by simp
      finally show ?thesis using q True fresh by simp
    qed
  qed
qed

lemma processQueue_result:
  assumes "\<not> isProcessingQueue s"
  shows "processQueue cfg now s =
     (if activeRequests s < maxConcurrentRequests cfg
      then s\<lparr>requestQueue := [],
             effects := effects s @
               map (\<lambda>e. Reply503 (entry_request e)) (filter (timed_out cfg now) (requestQueue s))\<rparr>
      else s)"
proof (cases "requestQueue s = []")
  case True
  then show ?thesis by (simp add: processQueue.simps)
next
  case False
  have "processQueue cfg now s =
        (processQueue_loop cfg now (s\<lparr>isProcessingQueue := True\<rparr>))\<lparr>isProcessingQueue := False\<rparr>"
    using assms False by (simp add: processQueue.simps)
  then show ?thesis
    using assms by (simp add: processQueue_loop_result)
qed

subsection \<open>The hook, case by case\<close>

lemma requestQueueManager_admit:
  "\<not> enableQueue cfg \<or> activeRequests s < maxConcurrentRequests cfg \<Longrightarrow>
   requestQueueManager cfg now r s =
     s\<lparr>activeRequests := activeRequests s + 1, effects := effects s @ [Done r]\<rparr>"
  by (auto simp: requestQueueManager_def Let_def)

lemma requestQueueManager_enqueue:
  "enableQueue cfg \<Longrightarrow> \<not> activeRequests s < maxConcurrentRequests cfg \<Longrightarrow>
   requestQueueManager cfg now r s =
     s\<lparr>requestQueue := requestQueue s @ [\<lparr>entry_request = r, timestamp = now\<rparr>],
       effects := effects s @
         [Header r ''X-Queue-Position'' (int (length (requestQueue s)) + 1),
          Header r ''X-Queue-Wait-Time'' 0]\<rparr>"
  by (cases "isProcessingQueue s")
     (simp_all add: requestQueueManager_def Let_def processQueue_result)

text \<open>No call of the hook lowers the counter: nothing in the middleware releases a slot.\<close>

lemma requestQueueManager_never_releases:
  "activeRequests s \<le> activeRequests (requestQueueManager cfg now r s)"
  by (cases "\<not> enableQueue cfg \<or> activeRequests s < maxConcurrentRequests cfg")
     (simp_all add: requestQueueManager_admit requestQueueManager_enqueue)

lemma serve_request_admitted:
  "\<not> enableQueue cfg \<or> activeRequests s < maxConcurrentRequests cfg \<Longrightarrow>
   serve_request cfg now r outcome s =
     s\<lparr>activeRequests := activeRequests s + 1, effects := effects s @ [Done r]\<rparr>"
  by (cases outcome) (simp_all add: serve_request_def requestQueueManager_admit request_end_def)

lemma run_requests_queue_off:
  "\<not> enableQueue cfg \<Longrightarrow>
   run_requests cfg reqs s =
     s\<lparr>activeRequests := activeRequests s + int (length reqs),
       effects := effects s @ map (\<lambda>(now, r). Done r) reqs\<rparr>"
proof (induction reqs arbitrary: s)
  case Nil
  then show ?case by simp
next
  case (Cons a reqs)
  obtain now r where a: "a = (now, r)" by (cases a)
  show ?case using Cons by (simp add: a requestQueueManager_admit)
qed

subsection \<open>The states that requests lead to\<close>

text \<open>
  A request is put on the queue only when no slot is free, and nothing lowers the counter
  afterwards. So in every state that a sequence of requests leads to from the initial
  state, a non-empty queue comes with a full counter: the loop of \<open>processQueue\<close> is never
  entered, no 503 is ever sent, and an entry once queued stays queued.
\<close>

lemma requestQueueManager_full_queue_step:
  assumes "\<not> isProcessingQueue s"
    and "requestQueue s \<noteq> [] \<longrightarrow> enableQueue cfg \<and> \<not> activeRequests s < maxConcurrentRequests cfg"
    and "\<forall>x. Reply503 x \<notin> set (effects s)"
  shows "\<not> isProcessingQueue (requestQueueManager cfg now r s)
     \<and> (requestQueue (requestQueueManager cfg now r s) \<noteq> [] \<longrightarrow>
           enableQueue cfg
           \<and> \<not> activeRequests (requestQueueManager cfg now r s) < maxConcurrentRequests cfg)
     \<and> (\<forall>x. Reply503 x \<notin> set (effects (requestQueueManager cfg now r s)))
     \<and> prefix (requestQueue s) (requestQueue (requestQueueManager cfg now r s))"
proof (cases "\<not> enableQueue cfg \<or> activeRequests s < maxConcurrentRequests cfg")
  case True
  note eq = requestQueueManager_admit[OF True, of now r]
  from True assms(2) have "requestQueue s = []" by blast
  with assms(1,3) show ?thesis by (simp add: eq)
next
  case False
  then have en: "enableQueue cfg" and full: "\<not> activeRequests s < maxConcurrentRequests cfg"
    by blast+
  note eq = requestQueueManager_enqueue[OF en full, of now r]
  from assms(1,3) en full show ?thesis by (simp add: eq)
qed

lemma requestQueueManager_full_queue:
  assumes "\<not> isProcessingQueue s"
    and "requestQueue s \<noteq> [] \<longrightarrow> enableQueue cfg \<and> \<not> activeRequests s < maxConcurrentRequests cfg"
    and "\<forall>x. Reply503 x \<notin> set (effects s)"
  shows "\<not> isProcessingQueue (requestQueueManager cfg now r s)"
    and "requestQueue (requestQueueManager cfg now r s) \<noteq> [] \<longrightarrow>
           enableQueue cfg
           \<and> \<not> activeRequests (requestQueueManager cfg now r s) < maxConcurrentRequests cfg"
    and "\<forall>x. Reply503 x \<notin> set (effects (requestQueueManager cfg now r s))"
    and "prefix (requestQueue s) (requestQueue (requestQueueManager cfg now r s))"
  using requestQueueManager_full_queue_step[OF assms, of now r] by blast+

lemma run_requests_full_queue:
  assumes "\<not> isProcessingQueue s"
    and "requestQueue s \<noteq> [] \<longrightarrow> enableQueue cfg \<and> \<not> activeRequests s < maxConcurrentRequests cfg"
    and "\<forall>x. Reply503 x \<notin> set (effects s)"
  shows "\<not> isProcessingQueue (run_requests cfg reqs s)"
    and "requestQueue (run_requests cfg reqs s) \<noteq> [] \<longrightarrow>
            enableQueue cfg
            \<and> \<not> activeRequests (run_requests cfg reqs s) < maxConcurrentRequests cfg"
    and "\<forall>x. Reply503 x \<notin> set (effects (run_requests cfg reqs s))"
    and "prefix (requestQueue s) (requestQueue (run_requests cfg reqs s))"
  using assms
proof (induction reqs arbitrary: s)
  case Nil
  {
    case 1 then show ?case by simp
  next
    case 2 then show ?case by simp
  next
    case 3 then show ?case by simp
  next
    case 4 then show ?case by simp
  }
next
  case (Cons a reqs)
  obtain now r where a: "a = (now, r)" by (cases a)
  {
    case 1
    note step = requestQueueManager_full_queue[OF 1, of now r]
    from Cons.IH(1)[OF step(1,2,3)] show ?case by (simp add: a)
  next
    case 2
    note step = requestQueueManager_full_queue[OF 2, of now r]
    from Cons.IH(2)[OF step(1,2,3)] show ?case by (simp add: a)
  next
    case 3
    note step = requestQueueManager_full_queue[OF 3, of now r]
    from Cons.IH(3)[OF step(1,2,3)] show ?case by (simp add: a)
  next
    case 4
    note step = requestQueueManager_full_queue[OF 4, of now r]
    from Cons.IH(4)[OF step(1,2,3)] step(4) show ?case
      by (auto simp: a intro: prefix_order.trans)
  }
qed

lemma no_request_is_ever_rejected:
  "Reply503 r \<notin> set (effects (run_requests cfg reqs initial_admission))"
  using run_requests_full_queue(3)[of initial_admission cfg reqs]
  by (simp add: initial_admission_def)

lemma queued_entries_are_never_removed:
  "prefix (requestQueue (run_requests cfg reqs initial_admission))
     (requestQueue (run_requests cfg later (run_requests cfg reqs initial_admission)))"
proof -
  have init: "\<not> isProcessingQueue initial_admission"
    "requestQueue initial_admission \<noteq> [] \<longrightarrow>
       enableQueue cfg \<and> \<not> activeRequests initial_admission < maxConcurrentRequests cfg"
    "\<forall>x. Reply503 x \<notin> set (effects initial_admission)"
    by (simp_all add: initial_admission_def)
  note reached = run_requests_full_queue(1,2,3)[OF init, of reqs]
  from run_requests_full_queue(4)[OF reached] show ?thesis .
qed

subsection \<open>A server with room for one request\<close>

lemma capacity_one_simps [simp]:
  "maxConcurrentRequests capacity_one = 1"
  "queueTimeout capacity_one = 30000"
  "enableQueue capacity_one"
  by (simp_all add: capacity_one_def requestQueueManager_options_def no_options_def)

text \<open>
  C1. The claim: with \<open>max_concurrent = N\<close> the \<open>(N+1)\<close>-th concurrent request is queued
  until a slot is released; a release promotes exactly one queued entry, the earliest,
  whose handler is resumed, and the drain stops there.

  On the code, with \<open>N = 1\<close> and queueing enabled: request 1 is admitted and ends; requests
  2 and 3 then arrive and are both queued, because the end of request 1 released nothing;
  their \<^verbatim>\<open>done\<close> callbacks are never called. And were a slot free (state \<open>two_waiting\<close>),
  one run of \<open>processQueue\<close> would remove both entries, not one, and resume neither: the
  \<^verbatim>\<open>done\<close> it calls is the entry's wrapper, which takes the increment back and never calls
  the callback that Fastify gave to the hook.
\<close>

theorem queued_requests_are_never_promoted:
  "run_requests capacity_one [(1, 2), (2, 3)]
       (serve_request capacity_one 0 1 Returned initial_admission) =
     \<lparr>activeRequests = 1,
      requestQueue = [\<lparr>entry_request = 2, timestamp = 1\<rparr>, \<lparr>entry_request = 3, timestamp = 2\<rparr>],
      isProcessingQueue = False,
      effects = [Done 1,
                 Header 2 ''X-Queue-Position'' 1, Header 2 ''X-Queue-Wait-Time'' 0,
                 Header 3 ''X-Queue-Position'' 2, Header 3 ''X-Queue-Wait-Time'' 0]\<rparr>
   \<and> processQueue capacity_one 3 two_waiting =
     \<lparr>activeRequests = 0, requestQueue = [], isProcessingQueue = False, effects = []\<rparr>"
  by (simp add: serve_request_admitted requestQueueManager_enqueue processQueue_result
        initial_admission_def two_waiting_def timed_out_def)

text \<open>
  C2. The claim: every admitted request releases its slot when it ends, whether its handler
  returned or raised, so that the counter is back at its value from before the admission.

  On the code, with the default options: a request is admitted at counter 0, and after it
  has ended, either way, the counter is 1.
\<close>

theorem admitted_request_keeps_its_slot:
  "activeRequests initial_admission = 0
   \<and> activeRequests (serve_request (requestQueueManager_options Map.empty no_options)
                       0 1 Returned initial_admission) = 1
   \<and> activeRequests (serve_request (requestQueueManager_options Map.empty no_options)
                       0 1 Raised initial_admission) = 1"
  by (simp add: serve_request_admitted initial_admission_def
        requestQueueManager_options_def no_options_def)

text \<open>
  C3. The claim: an entry that has waited longer than \<open>queueTimeout\<close> is rejected with 503
  and removed from the queue, actively, without waiting for another event.

  On the code: request 2 is queued at time 0 behind request 1; at time 40000 request 3
  arrives and runs the hook; request 2 has then waited 40 seconds, is still in the queue
  and has received no 503. The test on the waiting time sits in the loop of
  \<open>processQueue\<close>, which needs a free slot, and no slot is ever freed.
\<close>

theorem expired_entry_stays_queued:
  "\<lparr>entry_request = 2, timestamp = 0\<rparr>
     \<in> set (requestQueue
              (run_requests capacity_one [(0, 1), (0, 2), (40000, 3)] initial_admission))
   \<and> timed_out capacity_one 40000 \<lparr>entry_request = 2, timestamp = 0\<rparr>
   \<and> Reply503 2
     \<notin> set (effects (run_requests capacity_one [(0, 1), (0, 2), (40000, 3)] initial_admission))"
  by (simp add: requestQueueManager_admit requestQueueManager_enqueue initial_admission_def
        timed_out_def)

text \<open>
  C10. Unless \<^verbatim>\<open>ENABLE_REQUEST_QUEUE\<close> is exactly \<^verbatim>\<open>true\<close>, the default options disable
  queueing, with \<open>maxConcurrentRequests = 1000\<close>. Then the hook admits every request
  whatever the counter is, and any sequence of requests from the initial state leaves the
  queue empty and sets no header: the only effects are the \<^verbatim>\<open>done\<close> calls.
\<close>

theorem queue_disabled_by_default:
  assumes "env ''ENABLE_REQUEST_QUEUE'' \<noteq> Some ''true''"
  shows "enableQueue (requestQueueManager_options env no_options) = False
     \<and> maxConcurrentRequests (requestQueueManager_options env no_options) = 1000
     \<and> requestQueueManager (requestQueueManager_options env no_options) now r s =
          s\<lparr>activeRequests := activeRequests s + 1, effects := effects s @ [Done r]\<rparr>
     \<and> run_requests (requestQueueManager_options env no_options) reqs initial_admission =
          \<lparr>activeRequests = int (length reqs), requestQueue = [], isProcessingQueue = False,
           effects = map (\<lambda>(now, r). Done r) reqs\<rparr>"
proof -
  have off: "\<not> enableQueue (requestQueueManager_options env no_options)"
    using assms by (simp add: requestQueueManager_options_def no_options_def)
  have "maxConcurrentRequests (requestQueueManager_options env no_options) = 1000"
    by (simp add: requestQueueManager_options_def no_options_def)
  then show ?thesis
    using off by (simp add: run_requests_queue_off requestQueueManager_admit initial_admission_def)
qed

theorem queue_disabled_by_default_witness:
  "upper_case_env ''ENABLE_REQUEST_QUEUE'' \<noteq> Some ''true''
   \<and> requestQueueManager (requestQueueManager_options upper_case_env no_options) 7 1
        (initial_admission\<lparr>activeRequests := 1000\<rparr>) =
      (initial_admission\<lparr>activeRequests := 1000\<rparr>)
        \<lparr>activeRequests := activeRequests (initial_admission\<lparr>activeRequests := 1000\<rparr>) + 1,
         effects := effects (initial_admission\<lparr>activeRequests := 1000\<rparr>) @ [Done 1]\<rparr>
   \<and> run_requests (requestQueueManager_options upper_case_env no_options) [(0, 1), (5, 2)]
        initial_admission =
      \<lparr>activeRequests = int (length [(0 :: int, 1 :: nat), (5, 2)]), requestQueue = [],
       isProcessingQueue = False,
       effects = map (\<lambda>(now, r). Done r) [(0 :: int, 1 :: nat), (5, 2)]\<rparr>"
proof -
  have h: "upper_case_env ''ENABLE_REQUEST_QUEUE'' \<noteq> Some ''true''"
    by (simp add: upper_case_env_def)
  from queue_disabled_by_default[where env = upper_case_env and now = 7 and r = 1
      and s = "initial_admission\<lparr>activeRequests := 1000\<rparr>" and reqs = "[(0, 1), (5, 2)]", OF h] h
  show ?thesis by blast
qed

section \<open>Properties of the product routes\<close>

subsection \<open>Parameters that pass the schema\<close>

text \<open>
  A string that matches \<^verbatim>\<open>^[1-9]\d*$\<close> is read by \<^verbatim>\<open>parseInt\<close> as a number that is at
  least 1.
\<close>

lemma digit_of_simps:
  "digit_of CHR ''0'' = Some 0" "digit_of CHR ''1'' = Some 1" "digit_of CHR ''2'' = Some 2"
  "digit_of CHR ''3'' = Some 3" "digit_of CHR ''4'' = Some 4" "digit_of CHR ''5'' = Some 5"
  "digit_of CHR ''6'' = Some 6" "digit_of CHR ''7'' = Some 7" "digit_of CHR ''8'' = Some 8"
  "digit_of CHR ''9'' = Some 9"
  by (simp_all add: digit_of_def)

lemma decimal_digit_is_digit: "d \<in> set ''0123456789'' \<Longrightarrow> is_digit 10 d"
  by (auto simp: is_digit_def digit_of_simps)

lemma leading_digit_cases:
  assumes "c \<in> set ''123456789''"
  shows "c = CHR ''1'' \<or> c = CHR ''2'' \<or> c = CHR ''3'' \<or> c = CHR ''4'' \<or> c = CHR ''5''
       \<or> c = CHR ''6'' \<or> c = CHR ''7'' \<or> c = CHR ''8'' \<or> c = CHR ''9''"
  using assms by simp

lemma leading_digit_plain:
  assumes "c \<in> set ''123456789''"
  shows "\<not> is_space c \<and> c \<noteq> CHR ''-'' \<and> c \<noteq> CHR ''+'' \<and> c \<noteq> CHR ''0''"
  using leading_digit_cases[OF assms] by (elim disjE) (simp_all add: is_space_def)

lemma leading_digit_value:
  assumes "c \<in> set ''123456789''"
  shows "\<exists>d. digit_of c = Some d \<and> 1 \<le> d \<and> d < 10"
  using leading_digit_cases[OF assms] by (elim disjE) (simp_all add: digit_of_simps)

lemma digits_value_acc:
  "acc \<le> foldl (\<lambda>acc c. case digit_of c of None \<Rightarrow> acc | Some d \<Rightarrow> acc * 10 + d) acc ds"
proof (induction ds arbitrary: acc)
  case Nil
  then show ?case by simp
next
  case (Cons c ds)
  have "acc \<le> (case digit_of c of None \<Rightarrow> acc | Some d \<Rightarrow> acc * 10 + d)"
    by (cases "digit_of c") simp_all
  also have "\<dots> \<le> foldl (\<lambda>acc c. case digit_of c of None \<Rightarrow> acc | Some d \<Rightarrow> acc * 10 + d)
                    (case digit_of c of None \<Rightarrow> acc | Some d \<Rightarrow> acc * 10 + d) ds"
    by (rule Cons.IH)
  finally show ?case by simp
qed

lemma parseInt_positive:
  assumes "matches_positive_integer s"
  shows "\<exists>n. parseInt s = Some n \<and> 1 \<le> n"
proof -
  from assms obtain c cs where s: "s = c # cs" and c: "c \<in> set ''123456789''"
    and cs: "list_all (\<lambda>d. d \<in> set ''0123456789'') cs"
    by (cases s) (simp_all add: matches_positive_integer_def)
  note plain = leading_digit_plain[OF c]
  obtain d where d: "digit_of c = Some d" "1 \<le> d" "d < 10"
    using leading_digit_value[OF c] by blast
  have "\<forall>x\<in>set cs. is_digit 10 x"
    using cs by (simp add: list_all_iff decimal_digit_is_digit)
  then have rest: "takeWhile (is_digit 10) cs = cs"
    by (simp add: takeWhile_eq_all_conv)
  have first: "is_digit 10 c" using d by (simp add: is_digit_def)
  have z: "takeWhile (is_digit 10) (c # cs) = c # cs" using first rest by simp
  have t: "dropWhile is_space (c # cs) = c # cs" using plain by simp
  have nohex: "take 2 (c # cs) \<noteq> ''0x''" "take 2 (c # cs) \<noteq> ''0X''"
    using plain by (cases cs; simp)+
  have "1 \<le> digits_value 10 (c # cs)"
    using digits_value_acc[of d cs] d by (simp add: digits_value_def)
  moreover have "parseInt s = Some (int (digits_value 10 (c # cs)))"
    unfolding parseInt_def s Let_def t using plain nohex z by simp
  ultimately show ?thesis by simp
qed


lemma pattern_ok_parseInt_arg:
  assumes "pattern_ok v"
  shows "v = None \<or> (\<exists>n. parseInt_arg v = Some n \<and> 1 \<le> n)"
proof (cases v)
  case None
  then show ?thesis by simp
next
  case (Some s)
  with assms have "matches_positive_integer s" by (simp add: pattern_ok_def)
  from parseInt_positive[OF this] Some show ?thesis by (simp add: parseInt_arg_def)
qed

lemma pattern_ok_or_default:
  assumes "pattern_ok v" and "1 \<le> d"
  shows "1 \<le> or_default (parseInt_arg v) d"
  using pattern_ok_parseInt_arg[OF assms(1)] assms(2)
  by (auto simp: or_default_def parseInt_arg_def)

lemma validatePaginationParams_range:
  "validatePaginationParams query = Inr (page, limit) \<Longrightarrow> 1 \<le> page \<and> 1 \<le> limit \<and> limit \<le> 100"
  by (auto simp: validatePaginationParams_def Let_def split: if_splits)

lemma limit_message_is_bad_request:
  "reply_of (get_products_catch ''Limit cannot exceed 100 items per page'' c acc) =
     \<lparr>status = 400, headers = [],
      body = error_body ''Bad Request'' ''Limit cannot exceed 100 items per page''\<rparr>"
  by (simp add: get_products_catch_def)


subsection \<open>Values of the examples\<close>

lemma parseInt_examples:
  "parseInt ''101'' = Some 101" "parseInt ''0'' = Some 0" "parseInt ''1'' = Some 1"
  "parseInt ''10'' = Some 10" "parseInt ''5'' = Some 5" "parseInt ''7'' = Some 7"
  "parseInt ''103'' = Some 103"
  by (simp_all add: parseInt_def is_space_def is_digit_def digit_of_simps digits_value_def)

subsection \<open>The listing\<close>

text \<open>
  Past the schema, \<^verbatim>\<open>validatePaginationParams\<close> alone would not reject a zero: \<^verbatim>\<open>0 || 10\<close>
  is the default. The zero and the negative numbers are stopped by the schema.
\<close>

lemma zero_limit_takes_default:
  "validatePaginationParams (Map.empty(''limit'' \<mapsto> ''0'')) = Inr (1, 10)"
  by (simp add: validatePaginationParams_def parseInt_arg_def parseInt_examples or_default_def)

text \<open>
  C4. A listing request whose \<^verbatim>\<open>limit\<close> reads as a number above 100 or below 1, or whose
  \<^verbatim>\<open>page\<close> reads as a number below 1, is answered 400, and neither the cache nor the query
  executor is called for it.
\<close>

theorem listing_out_of_range_is_rejected:
  assumes "(case parseInt_arg (query ''limit'') of None \<Rightarrow> False | Some n \<Rightarrow> n > 100 \<or> n < 1)
         \<or> (case parseInt_arg (query ''page'') of None \<Rightarrow> False | Some p \<Rightarrow> p < 1)"
  shows "status (reply_of (get_products cd exec now query c)) = 400
       \<and> accesses (get_products cd exec now query c) = []
       \<and> cache_of (get_products cd exec now query c) = c"
proof (cases "querySchema query")
  case False
  then show ?thesis by (simp add: get_products_def schema_rejected_def)
next
  case True
  then have pg: "pattern_ok (query ''page'')" and lm: "pattern_ok (query ''limit'')"
    by (simp_all add: querySchema_def)
  have page: "1 \<le> or_default (parseInt_arg (query ''page'')) 1"
    using pattern_ok_or_default[OF pg] by simp
  have "\<not> (case parseInt_arg (query ''page'') of None \<Rightarrow> False | Some p \<Rightarrow> p < 1)"
    using pattern_ok_parseInt_arg[OF pg] by (auto simp: parseInt_arg_def)
  with assms obtain n where n: "parseInt_arg (query ''limit'') = Some n" "n > 100 \<or> n < 1"
    by (auto split: option.splits)
  have "1 \<le> n" using pattern_ok_parseInt_arg[OF lm] n(1) by (auto simp: parseInt_arg_def)
  with n(2) have big: "100 < n" by simp
  have "validatePaginationParams query = Inl ''Limit cannot exceed 100 items per page''"
    using page big n(1) by (simp add: validatePaginationParams_def Let_def or_default_def)
  then have "get_products cd exec now query c =
             get_products_catch ''Limit cannot exceed 100 items per page'' c []"
    using True by (simp add: get_products_def get_products_handler_def)
  then show ?thesis
    by (simp add: limit_message_is_bad_request) (simp add: get_products_catch_def)
qed


theorem listing_out_of_range_is_rejected_witness:
  "parseInt_arg (over_limit ''limit'') = Some 101
   \<and> status (reply_of (get_products (single_document JNull) (postgres by_id small_catalogue)
                          0 over_limit empty_cache)) = 400
   \<and> accesses (get_products (single_document JNull) (postgres by_id small_catalogue)
                  0 over_limit empty_cache) = []
   \<and> cache_of (get_products (single_document JNull) (postgres by_id small_catalogue)
                  0 over_limit empty_cache) = empty_cache
   \<and> parseInt_arg (page_zero ''page'') = Some 0
   \<and> status (reply_of (get_products (single_document JNull) (postgres by_id small_catalogue)
                          0 page_zero empty_cache)) = 400
   \<and> accesses (get_products (single_document JNull) (postgres by_id small_catalogue)
                  0 page_zero empty_cache) = []
   \<and> cache_of (get_products (single_document JNull) (postgres by_id small_catalogue)
                  0 page_zero empty_cache) = empty_cache"
proof -
  have a: "parseInt_arg (over_limit ''limit'') = Some 101"
    by (simp add: over_limit_def parseInt_arg_def parseInt_examples)
  have b: "parseInt_arg (page_zero ''page'') = Some 0"
    by (simp add: page_zero_def parseInt_arg_def parseInt_examples)
  from listing_out_of_range_is_rejected[of over_limit "single_document JNull"
         "postgres by_id small_catalogue" 0 empty_cache]
       listing_out_of_range_is_rejected[of page_zero "single_document JNull"
         "postgres by_id small_catalogue" 0 empty_cache] a b
  show ?thesis by simp
qed

lemma cached_result_after_cache_result:
  assumes "available c" and "t1 < t0 + 1000 * ttl"
    and "JSON_stringify cd E \<noteq> []" and "JSON_parse cd (JSON_stringify cd E) = Some E"
  shows "cached_result cd (cache_result cd c t0 K E ttl) t1 K = Some E"
  using assms by (simp add: cached_result_def cache_result_def redis_get_def redis_set_def)

lemma get_products_catch_not_ok:
  "reply_of (get_products_catch message c acc) \<noteq> \<lparr>status = 200, headers = h, body = b\<rparr>"
  by (simp add: get_products_catch_def)

lemma respond_miss_simps [simp]:
  "reply_of (respond_miss cd c now key response acc) =
     \<lparr>status = 200, headers = [(''X-Cache'', ''MISS'')], body = response\<rparr>"
  "cache_of (respond_miss cd c now key response acc) = cache_result cd c now key response 60"
  "accesses (respond_miss cd c now key response acc) = acc @ [Cache_set key 60]"
  by (simp_all add: respond_miss_def)

lemma available_redis_set:
  "available (case redis_set c now key v ttl of None \<Rightarrow> c | Some c' \<Rightarrow> c') = available c"
  by (simp add: redis_set_def)

lemma get_products_miss:
  assumes "reply_of (get_products cd exec t0 query c) =
             \<lparr>status = 200, headers = [(''X-Cache'', ''MISS'')], body = E\<rparr>"
  shows "querySchema query \<and>
         (\<exists>page limit c'. validatePaginationParams query = Inr (page, limit)
            \<and> available c' = available c
            \<and> cache_of (get_products cd exec t0 query c) =
                cache_result cd c' t0 (products_cacheKey page limit) E 60)"
proof -
  have schema: "querySchema query"
    using assms by (cases "querySchema query") (simp_all add: get_products_def schema_rejected_def)
  then have h: "get_products cd exec t0 query c = get_products_handler cd exec t0 query c"
    by (simp add: get_products_def)
  obtain page limit where v: "validatePaginationParams query = Inr (page, limit)"
    using assms unfolding h
    by (cases "validatePaginationParams query")
       (auto simp: get_products_handler_def get_products_catch_not_ok)
  let ?key = "products_cacheKey page limit"
  have miss: "cached_result cd c t0 ?key = None"
    using assms unfolding h
    by (cases "cached_result cd c t0 ?key") (simp_all add: get_products_handler_def v Let_def)
  show ?thesis
  proof (cases "executeQuery_rows exec (Products_page limit ((page - 1) * limit))")
    case (Inl message)
    then show ?thesis
      using assms unfolding h
      by (simp add: get_products_handler_def v miss Let_def get_products_catch_not_ok)
  next
    case rows: (Inr rows)
    let ?cachedCount = "case redis_get c t0 totalCountKey of
                          Some (Some cachedTotal) \<Rightarrow>
                            if cachedTotal = [] then None else parseInt cachedTotal
                        | _ \<Rightarrow> None"
    show ?thesis
    proof (cases "or_default ?cachedCount 0 = 0")
      case counting: True
      show ?thesis
      proof (cases "executeQuery_count exec Products_count")
        case (Inl message)
        then show ?thesis
          using assms counting unfolding h
          by (simp add: get_products_handler_def v miss rows Let_def get_products_catch_not_ok)
      next
        case (Inr n)
        let ?c' = "case redis_set c t0 totalCountKey (show_int n) 300 of None \<Rightarrow> c | Some c' \<Rightarrow> c'"
        have "get_products_handler cd exec t0 query c =
              respond_miss cd ?c' t0 ?key (products_envelope rows page limit n)
                ([Cache_get ?key, Cache_get totalCountKey,
                  Query (Products_page limit ((page - 1) * limit)), Query Products_count]
                 @ [Cache_set totalCountKey 300])"
          using counting by (simp add: get_products_handler_def v miss rows Inr Let_def)
        with assms h schema v available_redis_set[of c t0 totalCountKey "show_int n" 300]
        show ?thesis by auto
      qed
    next
      case known: False
      have "get_products_handler cd exec t0 query c =
            respond_miss cd c t0 ?key
              (products_envelope rows page limit (or_default ?cachedCount 0))
              [Cache_get ?key, Cache_get totalCountKey,
               Query (Products_page limit ((page - 1) * limit))]"
        using known by (simp add: get_products_handler_def v miss rows Let_def)
      with assms h schema v show ?thesis by auto
    qed
  qed
qed

lemma get_products_hit:
  assumes "querySchema query" and "validatePaginationParams query = Inr (page, limit)"
    and "cached_result cd c t (products_cacheKey page limit) = Some E"
  shows "get_products cd exec t query c =
           \<lparr>reply_of = \<lparr>status = 200, headers = [(''X-Cache'', ''HIT'')], body = E\<rparr>,
            cache_of = c, accesses = [Cache_get (products_cacheKey page limit)]\<rparr>"
  using assms by (simp add: get_products_def get_products_handler_def Let_def)

text \<open>
  C7. An envelope written to the cache under a key is read back equal before its time to
  live has passed, given a codec that reads back what it printed for that envelope. So a
  listing request answered \<^verbatim>\<open>X-Cache: MISS\<close> with body \<open>E\<close>, repeated within 60 seconds on the
  cache it left, is answered \<^verbatim>\<open>X-Cache: HIT\<close> with the same body and without a query,
  whatever the catalogue has become.
\<close>

theorem cached_listing_is_replayed:
  assumes "available c"
    and "JSON_parse cd (JSON_stringify cd E) = Some E"
    and "JSON_stringify cd E \<noteq> []"
  shows "(t1 < t0 + 1000 * ttl \<longrightarrow>
            cached_result cd (cache_result cd c t0 K E ttl) t1 K = Some E)
       \<and> (reply_of (get_products cd exec t0 query c) =
              \<lparr>status = 200, headers = [(''X-Cache'', ''MISS'')], body = E\<rparr>
            \<and> t1 < t0 + 60000 \<longrightarrow>
            reply_of (get_products cd exec' t1 query (cache_of (get_products cd exec t0 query c))) =
              \<lparr>status = 200, headers = [(''X-Cache'', ''HIT'')], body = E\<rparr>
            \<and> (\<forall>q. Query q \<notin> set (accesses
                  (get_products cd exec' t1 query (cache_of (get_products cd exec t0 query c))))))"
proof -
  have first: "cached_result cd (cache_result cd c t0 K E ttl) t1 K = Some E"
    if "t1 < t0 + 1000 * ttl"
    using that assms by (simp add: cached_result_after_cache_result)
  have second: "reply_of (get_products cd exec' t1 query (cache_of (get_products cd exec t0 query c))) =
              \<lparr>status = 200, headers = [(''X-Cache'', ''HIT'')], body = E\<rparr>
            \<and> (\<forall>q. Query q \<notin> set (accesses
                  (get_products cd exec' t1 query (cache_of (get_products cd exec t0 query c)))))"
    if a: "reply_of (get_products cd exec t0 query c) =
              \<lparr>status = 200, headers = [(''X-Cache'', ''MISS'')], body = E\<rparr>"
      and t: "t1 < t0 + 60000"
  proof -
    from get_products_miss[OF a]
    obtain page limit c' where schema: "querySchema query"
      and v: "validatePaginationParams query = Inr (page, limit)"
      and av: "available c' = available c"
      and c1: "cache_of (get_products cd exec t0 query c) =
                 cache_result cd c' t0 (products_cacheKey page limit) E 60"
      by blast
    have "cached_result cd (cache_result cd c' t0 (products_cacheKey page limit) E 60) t1
            (products_cacheKey page limit) = Some E"
      using t av assms by (intro cached_result_after_cache_result) simp_all
    from get_products_hit[OF schema v this, of exec'] c1
    show ?thesis by simp
  qed
  from first second show ?thesis by blast
qed


lemma show_int_examples:
  "show_int 1 = ''1''" "show_int 10 = ''10''" "show_int 3 = ''3''" "show_int 103 = ''103''"
  "show_int 7 = ''7''"
  by (simp_all add: show_int_def show_nat.simps)

lemma small_catalogue_sorted: "sort_key p_index small_catalogue = small_catalogue"
  by (simp add: small_catalogue_def item_def)

lemma first_page_valid:
  "querySchema first_page" "validatePaginationParams first_page = Inr (1, 10)"
  by (simp_all add: querySchema_def pattern_ok_def matches_positive_integer_def first_page_def
        validatePaginationParams_def parseInt_arg_def parseInt_examples or_default_def)

lemma first_page_miss:
  "reply_of (get_products (single_document first_page_envelope) (postgres by_id small_catalogue)
               0 first_page empty_cache) =
     \<lparr>status = 200, headers = [(''X-Cache'', ''MISS'')], body = first_page_envelope\<rparr>"
  by (simp add: get_products_def get_products_handler_def first_page_valid Let_def
        cached_result_def redis_get_def empty_cache_def or_default_def
        executeQuery_rows_def executeQuery_count_def postgres_def select_rows_def select_count_def
        small_catalogue_sorted first_page_envelope_def)
     (simp add: small_catalogue_def)

theorem cached_listing_is_replayed_witness:
  "available empty_cache
   \<and> JSON_parse (single_document first_page_envelope)
        (JSON_stringify (single_document first_page_envelope) first_page_envelope)
        = Some first_page_envelope
   \<and> JSON_stringify (single_document first_page_envelope) first_page_envelope \<noteq> []
   \<and> cached_result (single_document first_page_envelope)
        (cache_result (single_document first_page_envelope) empty_cache 0 ''k''
           first_page_envelope 60) 59999 ''k'' = Some first_page_envelope
   \<and> reply_of (get_products (single_document first_page_envelope)
                 (postgres by_id small_catalogue) 0 first_page empty_cache) =
        \<lparr>status = 200, headers = [(''X-Cache'', ''MISS'')], body = first_page_envelope\<rparr>
   \<and> reply_of (get_products (single_document first_page_envelope) (postgres by_id []) 59999
                 first_page
                 (cache_of (get_products (single_document first_page_envelope)
                              (postgres by_id small_catalogue) 0 first_page empty_cache))) =
        \<lparr>status = 200, headers = [(''X-Cache'', ''HIT'')], body = first_page_envelope\<rparr>"
proof -
  have h: "available empty_cache"
    "JSON_parse (single_document first_page_envelope)
        (JSON_stringify (single_document first_page_envelope) first_page_envelope)
        = Some first_page_envelope"
    "JSON_stringify (single_document first_page_envelope) first_page_envelope \<noteq> []"
    by (simp_all add: empty_cache_def single_document_def)
  from cached_listing_is_replayed[OF h, where ?t1.0 = 59999 and ?t0.0 = 0 and ttl = 60 and K = "''k''"
        and exec = "postgres by_id small_catalogue" and query = first_page
        and exec' = "postgres by_id []"] h first_page_miss
  show ?thesis by simp
qed

subsection \<open>The item lookup\<close>

lemma get_index_valid:
  assumes "paramsSchema index" and "parseInt index = Some n"
  shows "get_index exec index c =
     (case executeQuery_rows exec (Product_by_index n) of
        Inl message \<Rightarrow>
          \<lparr>reply_of = \<lparr>status = 500, headers = [],
                        body = error_body ''Internal Server Error'' ''Failed to fetch product''\<rparr>,
           cache_of = c, accesses = [Query (Product_by_index n)]\<rparr>
      | Inr rows \<Rightarrow>
          (case rows of
             [] \<Rightarrow>
               \<lparr>reply_of = \<lparr>status = 404, headers = [],
                             body = error_body ''Not Found''
                                      (''Product with Index '' @ show_int n @ '' not found'')\<rparr>,
                cache_of = c, accesses = [Query (Product_by_index n)]\<rparr>
           | product # _ \<Rightarrow>
               \<lparr>reply_of = \<lparr>status = 200, headers = [], body = product_json product\<rparr>,
                cache_of = c, accesses = [Query (Product_by_index n)]\<rparr>))"
proof -
  from parseInt_positive[of index] assms have "1 \<le> n" by (auto simp: paramsSchema_def)
  then show ?thesis using assms by (simp add: get_index_def get_index_handler_def)
qed

lemma seven_is_valid: "paramsSchema ''7''" "paramsSchema ''103''"
  by (simp_all add: paramsSchema_def matches_positive_integer_def)

text \<open>
  C8. A lookup of an index that no row has: the query gives no row, the answer is 404, and
  the cache is left as it was; the only call is the one query.
\<close>

theorem missing_item_is_not_cached:
  assumes "paramsSchema index" and "parseInt index = Some n"
    and "run_rows exec (Product_by_index n) = Inr []"
  shows "status (reply_of (get_index exec index c)) = 404
       \<and> cache_of (get_index exec index c) = c
       \<and> accesses (get_index exec index c) = [Query (Product_by_index n)]"
  using assms(3) by (simp add: get_index_valid[OF assms(1,2)] executeQuery_rows_def)

theorem missing_item_is_not_cached_witness:
  "paramsSchema ''7'' \<and> parseInt ''7'' = Some 7
   \<and> run_rows (postgres by_id small_catalogue) (Product_by_index 7) = Inr []
   \<and> status (reply_of (get_index (postgres by_id small_catalogue) ''7'' empty_cache)) = 404
   \<and> cache_of (get_index (postgres by_id small_catalogue) ''7'' empty_cache) = empty_cache
   \<and> accesses (get_index (postgres by_id small_catalogue) ''7'' empty_cache)
       = [Query (Product_by_index 7)]"
proof -
  have h: "paramsSchema ''7''" "parseInt ''7'' = Some 7"
    "run_rows (postgres by_id small_catalogue) (Product_by_index 7) = Inr []"
    by (simp_all add: seven_is_valid parseInt_examples postgres_def select_rows_def
          small_catalogue_def item_def)
  from missing_item_is_not_cached[OF h, of empty_cache] h show ?thesis by simp
qed

text \<open>
  C9, as stated: the item lookup goes through the cache like the other queries, reading
  the cache first, filling it on success and tagging the reply \<^verbatim>\<open>X-Cache\<close>. It fails: the
  lookup of index 103, which exists, is answered 200 with no \<^verbatim>\<open>X-Cache\<close> header; the only
  call is the query, and the cache is left empty.
\<close>

theorem item_lookup_skips_the_cache:
  "get_index (postgres by_id small_catalogue) ''103'' empty_cache =
     \<lparr>reply_of = \<lparr>status = 200, headers = [], body = product_json (item 3 (Some ''Toys''))\<rparr>,
      cache_of = empty_cache,
      accesses = [Query (Product_by_index 103)]\<rparr>"
  by (simp add: get_index_valid[OF seven_is_valid(2) parseInt_examples(7)]
        executeQuery_rows_def postgres_def select_rows_def small_catalogue_def item_def)

text \<open>
  C9, amended: the item lookup does not use the cache. Whatever the request, the cache is
  left as it was, the cache client is not called and the reply has no header; a lookup
  answered 200 made exactly one query.
\<close>

theorem item_lookup_never_uses_cache:
  "cache_of (get_index exec index c) = c
   \<and> headers (reply_of (get_index exec index c)) = []
   \<and> (\<forall>k. Cache_get k \<notin> set (accesses (get_index exec index c)))
   \<and> (\<forall>k ttl. Cache_set k ttl \<notin> set (accesses (get_index exec index c)))
   \<and> (status (reply_of (get_index exec index c)) = 200 \<longrightarrow>
        (\<exists>n. accesses (get_index exec index c) = [Query (Product_by_index n)]))"
  by (auto simp: get_index_def get_index_handler_def schema_rejected_def
          split: option.splits sum.splits list.splits)

theorem item_lookup_never_uses_cache_witness:
  "status (reply_of (get_index (postgres by_id small_catalogue) ''103'' empty_cache)) = 200
   \<and> cache_of (get_index (postgres by_id small_catalogue) ''103'' empty_cache) = empty_cache
   \<and> headers (reply_of (get_index (postgres by_id small_catalogue) ''103'' empty_cache)) = []
   \<and> (\<exists>n. accesses (get_index (postgres by_id small_catalogue) ''103'' empty_cache)
             = [Query (Product_by_index n)])"
proof -
  have "status (reply_of (get_index (postgres by_id small_catalogue) ''103'' empty_cache)) = 200"
    by (simp add: get_index_valid[OF seven_is_valid(2) parseInt_examples(7)]
        executeQuery_rows_def postgres_def select_rows_def small_catalogue_def item_def)
  with item_lookup_never_uses_cache[of "postgres by_id small_catalogue" "''103''" empty_cache]
  show ?thesis by simp
qed

subsection \<open>The search\<close>

lemma search_params:
  "querySchema search_given" "validateSearchParams search_given = Inr (1, 10, None)"
  "querySchema q_given" "validateSearchParams q_given = Inr (1, 10, Some ''103'')"
  by (simp_all add: querySchema_def pattern_ok_def matches_positive_integer_def
        search_given_def q_given_def validateSearchParams_def validatePaginationParams_def
        parseInt_arg_def or_default_def trim_def is_space_def parseInt_examples)

lemma q_given_handled:
  "get_search_handler (single_document JNull) (postgres by_id small_catalogue) 0 q_given empty_cache =
     respond_miss (single_document JNull) empty_cache 0
       ''products:search:index:103:page:1:limit:10''
       (search_envelope [item 3 (Some ''Toys'')] 1 10 1 ''103'')
       [Cache_get ''products:search:index:103:page:1:limit:10'',
        Query (Search_by_index 103 10 0), Query (Search_count 103)]"
  by (simp add: get_search_handler_def search_params parseInt_examples search_cacheKey_def
        Let_def show_int_examples cached_result_def redis_get_def empty_cache_def
        executeQuery_rows_def executeQuery_count_def postgres_def select_rows_def
        select_count_def small_catalogue_def item_def)

text \<open>
  C5. The claim: the search term comes in the \<^verbatim>\<open>search\<close> parameter; without it the answer
  is 400 and the store is not queried, with it the answer is the search envelope.

  On the code: a request with \<^verbatim>\<open>search=103\<close> is answered 400, \<^verbatim>\<open>Search term is required\<close>,
  and a request with no \<^verbatim>\<open>search\<close> but \<^verbatim>\<open>q=103\<close> queries the store and is answered with the
  envelope. The handler reads \<^verbatim>\<open>query.q\<close>.
\<close>

theorem search_parameter_is_not_read:
  "get_search (single_document JNull) (postgres by_id small_catalogue) 0 search_given empty_cache =
     \<lparr>reply_of = \<lparr>status = 400, headers = [],
                   body = error_body ''Bad Request'' ''Search term is required''\<rparr>,
      cache_of = empty_cache, accesses = []\<rparr>
   \<and> reply_of (get_search (single_document JNull) (postgres by_id small_catalogue) 0 q_given
                 empty_cache) =
     \<lparr>status = 200, headers = [(''X-Cache'', ''MISS'')],
      body = search_envelope [item 3 (Some ''Toys'')] 1 10 1 ''103''\<rparr>
   \<and> accesses (get_search (single_document JNull) (postgres by_id small_catalogue) 0 q_given
                 empty_cache) =
     [Cache_get ''products:search:index:103:page:1:limit:10'',
      Query (Search_by_index 103 10 0), Query (Search_count 103),
      Cache_set ''products:search:index:103:page:1:limit:10'' 60]"
  by (simp add: get_search_def search_params q_given_handled)
     (simp add: get_search_handler_def search_params search_bad_request_def)


subsection \<open>The category lookup\<close>

lemma executeQuery_rows_postgres:
  "executeQuery_rows (postgres rnd tbl) q = Inr (select_rows rnd tbl q)"
  by (simp add: executeQuery_rows_def postgres_def)

lemma category_products_rows:
  "length (select_rows rnd tbl (Category_products name))
     = min 5 (length (filter (in_category name) tbl))"
  "set (select_rows rnd tbl (Category_products name)) \<subseteq> {p \<in> set tbl. in_category name p}"
proof -
  show "length (select_rows rnd tbl (Category_products name))
     = min 5 (length (filter (in_category name) tbl))"
    by (simp add: select_rows_def min.commute)
  have "set (take 5 (sort_key p_index (filter (in_category name) tbl)))
          \<subseteq> set (sort_key p_index (filter (in_category name) tbl))"
    by (rule set_take_subset)
  then show "set (select_rows rnd tbl (Category_products name))
               \<subseteq> {p \<in> set tbl. in_category name p}"
    by (auto simp: select_rows_def)
qed

lemma other_category_not_excluded:
  assumes "distinct (map p_id tbl)"
    and "set rows \<subseteq> {p \<in> set tbl. in_category name p}"
  shows "filter (\<lambda>p. in_other_category name p \<and> p_id p \<notin> p_id ` set rows) tbl
       = filter (in_other_category name) tbl"
proof (rule filter_cong[OF refl])
  fix p assume p: "p \<in> set tbl"
  have "p_id p \<notin> p_id ` set rows" if other: "in_other_category name p"
  proof
    assume "p_id p \<in> p_id ` set rows"
    then obtain r where r: "r \<in> set rows" "p_id r = p_id p" by auto
    with assms(2) have rt: "r \<in> set tbl" and rc: "in_category name r" by auto
    from assms(1) have "inj_on p_id (set tbl)" by (simp add: distinct_map)
    with r(2) rt p have "r = p" by (auto dest: inj_onD)
    with rc other show False
      by (auto simp: in_category_def in_other_category_def split: option.splits)
  qed
  then show "(in_other_category name p \<and> p_id p \<notin> p_id ` set rows) = in_other_category name p"
    by blast
qed

lemma random_products_rows:
  assumes "distinct (map p_id tbl)"
    and "set rows \<subseteq> {p \<in> set tbl. in_category name p}"
  shows "length (select_rows rnd tbl (Random_products name (map p_id rows) k))
           = min (nat k) (length (filter (in_other_category name) tbl))"
    and "set (select_rows rnd tbl (Random_products name (map p_id rows) k))
           \<subseteq> {p \<in> set tbl. in_other_category name p \<and> p_id p \<notin> p_id ` set rows}"
proof -
  note same = other_category_not_excluded[OF assms]
  show "length (select_rows rnd tbl (Random_products name (map p_id rows) k))
           = min (nat k) (length (filter (in_other_category name) tbl))"
    by (simp add: select_rows_def same min.commute)
  have "set (take (nat k) (sort_key rnd
               (filter (\<lambda>p. in_other_category name p \<and> p_id p \<notin> set (map p_id rows)) tbl)))
        \<subseteq> set (sort_key rnd
               (filter (\<lambda>p. in_other_category name p \<and> p_id p \<notin> set (map p_id rows)) tbl))"
    by (rule set_take_subset)
  then show "set (select_rows rnd tbl (Random_products name (map p_id rows) k))
           \<subseteq> {p \<in> set tbl. in_other_category name p \<and> p_id p \<notin> p_id ` set rows}"
    by (auto simp: select_rows_def)
qed

lemma get_category_miss:
  assumes "1 \<le> length categoryName" and "length categoryName \<le> 50"
    and "trim categoryName \<noteq> []"
    and "cached_result cd c now (category_cacheKey (trim categoryName)) = None"
    and "rows = select_rows rnd tbl (Category_products (trim categoryName))"
    and "fill = (if length rows < 5
                 then select_rows rnd tbl
                        (Random_products (trim categoryName) (map p_id rows) (5 - int (length rows)))
                 else [])"
  shows "reply_of (get_category cd (postgres rnd tbl) now categoryName c) =
     (if rows @ fill = []
      then \<lparr>status = 404, headers = [],
            body = error_body ''Not Found''
                     (''No products found in category ''
                      @ [CHR 0x27] @ trim categoryName @ [CHR 0x27]
                      @ '' and no other products available'')\<rparr>
      else \<lparr>status = 200, headers = [(''X-Cache'', ''MISS'')],
            body = category_envelope (trim categoryName) (rows @ fill)
                     (int (length rows)) (int (length fill))\<rparr>)"
  using assms(1-4) unfolding assms(5,6)
  by (simp add: get_category_def get_category_handler_def Let_def get_category_respond_def
        respond_miss_def executeQuery_rows_postgres)

lemma no_category_at_all:
  "(filter (in_category name) tbl = [] \<and> filter (in_other_category name) tbl = [])
     = (\<forall>p\<in>set tbl. p_category p = None)"
  by (auto simp: filter_empty_conv in_category_def in_other_category_def split: option.splits)

lemma trim_examples: "trim ''books'' = ''books''" "trim ''toys'' = ''toys''"
  by (simp_all add: trim_def is_space_def)

lemma lower_examples:
  "toLowerCase ''Books'' = ''books''" "toLowerCase ''books'' = ''books''"
  "toLowerCase ''Toys'' = ''toys''" "toLowerCase ''toys'' = ''toys''"
  "toLowerCase ''TOYS'' = ''toys''"
  by (simp_all add: toLowerCase_def)

lemma shelf_counts:
  "distinct (map p_id shelf)"
  "length (filter (in_category ''books'') shelf) = 2"
  "length (filter (in_other_category ''books'') shelf) = 5"
  "length (filter (in_category ''toys'') shelf) = 5"
  by (simp_all add: shelf_def item_def in_category_def in_other_category_def lower_examples)

lemma small_catalogue_counts:
  "length (filter (in_category ''books'') small_catalogue) = 2"
  "length (filter (in_other_category ''books'') small_catalogue) = 1"
  by (simp_all add: small_catalogue_def item_def in_category_def in_other_category_def
        lower_examples)

lemma empty_cache_misses: "cached_result cd empty_cache now key = None"
  by (simp add: cached_result_def redis_get_def empty_cache_def)

text \<open>
  C6, as stated: a category with exactly 2 matching items is answered with 5 products, 3
  of them random; and 404 is answered only for an empty catalogue. It fails: in a
  catalogue of three items, two of them in the category, the answer has 3 products, 1 of
  them random; and a catalogue whose only item has no category is answered 404.
\<close>

theorem category_fill_can_fall_short:
  "length (filter (in_category ''books'') small_catalogue) = 2
   \<and> reply_of (get_category (single_document JNull) (postgres by_id small_catalogue) 0 ''books''
                 empty_cache) =
       \<lparr>status = 200, headers = [(''X-Cache'', ''MISS'')],
        body = category_envelope ''books''
                 [item 1 (Some ''Books''), item 2 (Some ''books''), item 3 (Some ''Toys'')] 2 1\<rparr>
   \<and> uncategorised \<noteq> []
   \<and> status (reply_of (get_category (single_document JNull) (postgres by_id uncategorised) 0
                         ''books'' empty_cache)) = 404"
proof -
  have a: "select_rows by_id small_catalogue (Category_products ''books'')
             = [item 1 (Some ''Books''), item 2 (Some ''books'')]"
    by (simp add: select_rows_def small_catalogue_def item_def in_category_def lower_examples)
  have b: "select_rows by_id small_catalogue (Random_products ''books'' [1, 2] 3)
             = [item 3 (Some ''Toys'')]"
    by (simp add: select_rows_def small_catalogue_def item_def in_other_category_def
          lower_examples)
  have c: "select_rows by_id uncategorised (Category_products ''books'') = []"
    "select_rows by_id uncategorised (Random_products ''books'' [] 5) = []"
    by (simp_all add: select_rows_def uncategorised_def item_def in_category_def
          in_other_category_def)
  have "reply_of (get_category (single_document JNull) (postgres by_id small_catalogue) 0 ''books''
                 empty_cache) =
       \<lparr>status = 200, headers = [(''X-Cache'', ''MISS'')],
        body = category_envelope ''books''
                 [item 1 (Some ''Books''), item 2 (Some ''books''), item 3 (Some ''Toys'')] 2 1\<rparr>"
    using get_category_miss[where categoryName = "''books''" and cd = "single_document JNull"
        and c = empty_cache and now = 0 and rnd = by_id and tbl = small_catalogue, OF _ _ _ _ refl refl]
    by (simp add: trim_examples empty_cache_misses a b item_def)
  moreover have "status (reply_of (get_category (single_document JNull) (postgres by_id uncategorised) 0
                         ''books'' empty_cache)) = 404"
    using get_category_miss[where categoryName = "''books''" and cd = "single_document JNull"
        and c = empty_cache and now = 0 and rnd = by_id and tbl = uncategorised, OF _ _ _ _ refl refl]
    by (simp add: trim_examples empty_cache_misses c)
  ultimately show ?thesis
    by (simp add: small_catalogue_counts uncategorised_def)
qed

text \<open>
  C6, amended: on a cache miss, over a catalogue whose ids are distinct. A category with
  at least 5 items is answered with exactly 5 products, all of the category, and
  \<open>randomProducts = 0\<close>. A category with exactly 2 items, when at least 3 items have
  another category, is answered with 5 products, \<open>categoryMatches = 2\<close> and
  \<open>randomProducts = 3\<close>, the 3 being items of other categories whose ids differ from the
  first two. In a catalogue whose items all have a category, 404 is answered exactly when
  the catalogue is empty.
\<close>

theorem category_lookup_on_a_miss:
  assumes "distinct (map p_id tbl)"
    and "1 \<le> length categoryName" and "length categoryName \<le> 50"
    and "trim categoryName \<noteq> []"
    and "cached_result cd c now (category_cacheKey (trim categoryName)) = None"
  shows "(5 \<le> length (filter (in_category (trim categoryName)) tbl) \<longrightarrow>
           (\<exists>rows. reply_of (get_category cd (postgres rnd tbl) now categoryName c) =
                \<lparr>status = 200, headers = [(''X-Cache'', ''MISS'')],
                 body = category_envelope (trim categoryName) rows 5 0\<rparr>
              \<and> length rows = 5
              \<and> (\<forall>p\<in>set rows. p \<in> set tbl \<and> in_category (trim categoryName) p)))
       \<and> (length (filter (in_category (trim categoryName)) tbl) = 2
            \<and> 3 \<le> length (filter (in_other_category (trim categoryName)) tbl) \<longrightarrow>
           (\<exists>rows fill. reply_of (get_category cd (postgres rnd tbl) now categoryName c) =
                \<lparr>status = 200, headers = [(''X-Cache'', ''MISS'')],
                 body = category_envelope (trim categoryName) (rows @ fill) 2 3\<rparr>
              \<and> length rows = 2 \<and> length fill = 3
              \<and> (\<forall>p\<in>set rows. p \<in> set tbl \<and> in_category (trim categoryName) p)
              \<and> (\<forall>p\<in>set fill. p \<in> set tbl \<and> in_other_category (trim categoryName) p
                                 \<and> p_id p \<notin> p_id ` set rows)))
       \<and> ((\<forall>p\<in>set tbl. p_category p \<noteq> None) \<longrightarrow>
            (status (reply_of (get_category cd (postgres rnd tbl) now categoryName c)) = 404
               \<longleftrightarrow> tbl = []))"
proof -
  let ?name = "trim categoryName"
  let ?R = "reply_of (get_category cd (postgres rnd tbl) now categoryName c)"
  define rows where "rows = select_rows rnd tbl (Category_products ?name)"
  define fill where "fill = (if length rows < 5
                 then select_rows rnd tbl
                        (Random_products ?name (map p_id rows) (5 - int (length rows)))
                 else [])"
  note reply = get_category_miss[OF assms(2-5) rows_def fill_def]
  have len_rows: "length rows = min 5 (length (filter (in_category ?name) tbl))"
    and set_rows: "set rows \<subseteq> {p \<in> set tbl. in_category ?name p}"
    unfolding rows_def by (rule category_products_rows)+
  have len_fill: "length fill = (if length rows < 5
        then min (5 - length rows) (length (filter (in_other_category ?name) tbl)) else 0)"
  proof -
    have "nat (5 - int (length rows)) = 5 - length rows" by simp
    with random_products_rows(1)[OF assms(1) set_rows, of rnd "5 - int (length rows)"]
    show ?thesis by (simp add: fill_def)
  qed
  have set_fill: "set fill \<subseteq> {p \<in> set tbl. in_other_category ?name p \<and> p_id p \<notin> p_id ` set rows}"
    using random_products_rows(2)[OF assms(1) set_rows, of rnd "5 - int (length rows)"]
    by (auto simp: fill_def)
  have five: "\<exists>rows. ?R = \<lparr>status = 200, headers = [(''X-Cache'', ''MISS'')],
                 body = category_envelope ?name rows 5 0\<rparr>
              \<and> length rows = 5
              \<and> (\<forall>p\<in>set rows. p \<in> set tbl \<and> in_category ?name p)"
    if "5 \<le> length (filter (in_category ?name) tbl)"
  proof -
    from that len_rows have l: "length rows = 5" by simp
    with len_fill have "fill = []" by simp
    with reply l have "?R = \<lparr>status = 200, headers = [(''X-Cache'', ''MISS'')],
                 body = category_envelope ?name rows 5 0\<rparr>"
      by auto
    with l set_rows show ?thesis by blast
  qed
  have two: "\<exists>rows fill. ?R = \<lparr>status = 200, headers = [(''X-Cache'', ''MISS'')],
                 body = category_envelope ?name (rows @ fill) 2 3\<rparr>
              \<and> length rows = 2 \<and> length fill = 3
              \<and> (\<forall>p\<in>set rows. p \<in> set tbl \<and> in_category ?name p)
              \<and> (\<forall>p\<in>set fill. p \<in> set tbl \<and> in_other_category ?name p
                                 \<and> p_id p \<notin> p_id ` set rows)"
    if "length (filter (in_category ?name) tbl) = 2"
      and "3 \<le> length (filter (in_other_category ?name) tbl)"
  proof -
    from that(1) len_rows have l: "length rows = 2" by simp
    with len_fill that(2) have f: "length fill = 3" by simp
    with reply l have "?R = \<lparr>status = 200, headers = [(''X-Cache'', ''MISS'')],
                 body = category_envelope ?name (rows @ fill) 2 3\<rparr>"
      by auto
    with l f set_rows set_fill show ?thesis by blast
  qed
  have "status ?R = 404 \<longleftrightarrow> rows @ fill = []"
    using reply by simp
  also have "\<dots> \<longleftrightarrow> length rows = 0 \<and> length fill = 0"
    by simp
  also have "\<dots> \<longleftrightarrow> length (filter (in_category ?name) tbl) = 0
                    \<and> length (filter (in_other_category ?name) tbl) = 0"
    unfolding len_rows len_fill by (auto simp: min_def split: if_splits)
  also have "\<dots> \<longleftrightarrow> filter (in_category ?name) tbl = []
                    \<and> filter (in_other_category ?name) tbl = []"
    by simp
  finally have "status ?R = 404 \<longleftrightarrow> (\<forall>p\<in>set tbl. p_category p = None)"
    by (simp add: no_category_at_all)
  then have none: "status ?R = 404 \<longleftrightarrow> tbl = []" if "\<forall>p\<in>set tbl. p_category p \<noteq> None"
    using that by (cases tbl) auto
  from five two none show ?thesis by blast
qed


theorem category_lookup_on_a_miss_witness:
  "distinct (map p_id shelf)
   \<and> length (filter (in_category (trim ''books'')) shelf) = 2
   \<and> 3 \<le> length (filter (in_other_category (trim ''books'')) shelf)
   \<and> (\<exists>rows fill. reply_of (get_category (single_document JNull) (postgres by_id shelf) 0
                                ''books'' empty_cache) =
                \<lparr>status = 200, headers = [(''X-Cache'', ''MISS'')],
                 body = category_envelope (trim ''books'') (rows @ fill) 2 3\<rparr>
              \<and> length rows = 2 \<and> length fill = 3
              \<and> (\<forall>p\<in>set rows. p \<in> set shelf \<and> in_category (trim ''books'') p)
              \<and> (\<forall>p\<in>set fill. p \<in> set shelf \<and> in_other_category (trim ''books'') p
                                 \<and> p_id p \<notin> p_id ` set rows))
   \<and> 5 \<le> length (filter (in_category (trim ''toys'')) shelf)
   \<and> (\<exists>rows. reply_of (get_category (single_document JNull) (postgres by_id shelf) 0
                                ''toys'' empty_cache) =
                \<lparr>status = 200, headers = [(''X-Cache'', ''MISS'')],
                 body = category_envelope (trim ''toys'') rows 5 0\<rparr>
              \<and> length rows = 5
              \<and> (\<forall>p\<in>set rows. p \<in> set shelf \<and> in_category (trim ''toys'') p))
   \<and> (status (reply_of (get_category (single_document JNull) (postgres by_id small_catalogue) 0
                          ''books'' empty_cache)) = 404
        \<longleftrightarrow> small_catalogue = [])
   \<and> status (reply_of (get_category (single_document JNull) (postgres by_id []) 0
                         ''books'' empty_cache)) = 404"
proof -
  have books: "distinct (map p_id shelf)" "1 \<le> length ''books''" "length ''books'' \<le> 50"
    "trim ''books'' \<noteq> []"
    "cached_result (single_document JNull) empty_cache 0 (category_cacheKey (trim ''books'')) = None"
    by (simp_all add: shelf_counts trim_examples empty_cache_misses)
  have toys: "1 \<le> length ''toys''" "length ''toys'' \<le> 50" "trim ''toys'' \<noteq> []"
    "cached_result (single_document JNull) empty_cache 0 (category_cacheKey (trim ''toys'')) = None"
    by (simp_all add: trim_examples empty_cache_misses)
  have m: "length (filter (in_category (trim ''books'')) shelf) = 2"
    "3 \<le> length (filter (in_other_category (trim ''books'')) shelf)"
    "5 \<le> length (filter (in_category (trim ''toys'')) shelf)"
    by (simp_all add: trim_examples shelf_counts)
  have full: "distinct (map p_id small_catalogue)" "\<forall>p\<in>set small_catalogue. p_category p \<noteq> None"
    by (simp_all add: small_catalogue_def item_def)
  have none: "distinct (map p_id ([] :: product list))"
    "\<forall>p\<in>set ([] :: product list). p_category p \<noteq> None"
    by simp_all
  from category_lookup_on_a_miss[OF books, of by_id] category_lookup_on_a_miss[OF books(1) toys, of by_id]
    category_lookup_on_a_miss[OF full(1) books(2-5), of by_id] category_lookup_on_a_miss[OF none(1) books(2-5), of by_id]
    books(1) m full(2) none(2)
  show ?thesis by blast
qed


end
